theory Spec2Isabelle
  imports Complex_Main
begin

section \<open>Numbers and outcomes\<close>

text \<open>
  The program computes with C++ \<open>float\<close> and \<open>double\<close> values and with \<open>int\<close>.
  In this development a \<open>float\<close> or \<open>double\<close> is a real number: rounding, overflow,
  infinities and NaN are outside the model, and the one division whose divisor can be zero
  on a path the program really takes (the division by \<open>DX\<close> in \<open>Basis\<close> and \<open>addP\<close>) is
  written out where it stands. An \<open>int\<close> is an unbounded integer: the counters of the program
  stay at or below the number of samples plus one, so nothing wraps around for fewer than
  \<open>2^31 - 1\<close> samples.

  A call of the program either returns a value, or stops the process (a failed \<open>assert\<close>,
  \<open>exit(1)\<close>, a read outside a vector or an array), or does not return: \<open>Basis\<close> calls
  itself and nothing in its text bounds the recursion. A computation is therefore an
  \<open>outcome option\<close>: \<open>None\<close> is "does not return", \<open>Some (Fail e)\<close> is "the process
  stops with e", and \<open>Some (Value v)\<close> is "returns v".
\<close>

datatype failure = AssertionFailed | OutOfBounds | Exit

datatype 'a outcome = Value 'a | Fail failure

type_synonym 'a comp = "'a outcome option"

definition oreturn :: "'a \<Rightarrow> 'a comp" where
  "oreturn v = Some (Value v)"

definition ofail :: "failure \<Rightarrow> 'a comp" where
  "ofail e = Some (Fail e)"

definition obind :: "'a comp \<Rightarrow> ('a \<Rightarrow> 'b comp) \<Rightarrow> 'b comp" where
  "obind c f = Option.bind c (\<lambda>r. case r of Fail e \<Rightarrow> Some (Fail e) | Value v \<Rightarrow> f v)"

text \<open>\<open>xs[i]\<close> on a \<open>std::vector\<close> or on an array passed by pointer and length.\<close>

definition vget :: "'a list \<Rightarrow> int \<Rightarrow> 'a comp" where
  "vget xs i = (if 0 \<le> i \<and> i < int (length xs) then oreturn (xs ! nat i) else ofail OutOfBounds)"

text \<open>What a computation returns, if it returns.\<close>

definition returned :: "'a comp \<Rightarrow> 'a option" where
  "returned c = (case c of Some (Value v) \<Rightarrow> Some v | _ \<Rightarrow> None)"

text \<open>
  The conversion \<open>(int) r\<close> of a float: truncation towards zero (the program converts
  quotients between 0 and the number of node intervals only).
\<close>

definition float_to_int :: "real \<Rightarrow> int" where
  "float_to_int r = (if 0 \<le> r then \<lfloor>r\<rfloor> else \<lceil>r\<rceil>)"

section \<open>The banded matrix\<close>

text \<open>
  Modelled from the spec: \<open>BandedMatrix.h\<close> is not part of the sources. The spec describes
  the system matrix as a banded matrix of size \<open>(M+1) \<times> (M+1)\<close> with half-bandwidth 3 whose
  entries beyond \<open>|i - j| = 3\<close> are implicitly zero. A matrix is its size, its half-bandwidth
  and its cells; a cell outside the band or outside the matrix reads as 0 and a write to such
  a cell stores nothing.
\<close>

record matrix =
  msize :: int
  mbands :: int
  cells :: "int \<Rightarrow> int \<Rightarrow> real"

definition in_band :: "matrix \<Rightarrow> int \<Rightarrow> int \<Rightarrow> bool" where
  "in_band a i j \<longleftrightarrow> 0 \<le> i \<and> i < msize a \<and> 0 \<le> j \<and> j < msize a \<and> \<bar>i - j\<bar> \<le> mbands a"

definition mget :: "matrix \<Rightarrow> int \<Rightarrow> int \<Rightarrow> real" where
  "mget a i j = (if in_band a i j then cells a i j else 0)"

definition mset :: "matrix \<Rightarrow> int \<Rightarrow> int \<Rightarrow> real \<Rightarrow> matrix" where
  "mset a i j v = (if in_band a i j then a\<lparr>cells := (cells a)(i := (cells a i)(j := v))\<rparr> else a)"

text \<open>\<open>setup (Q, n); Q = 0.0\<close>: a matrix of \<open>n\<close> rows with three bands each side, all zero.\<close>

definition setup_zero :: "int \<Rightarrow> matrix" where
  "setup_zero n = \<lparr>msize = n, mbands = 3, cells = (\<lambda>i j. 0)\<rparr>"

definition symmetric :: "matrix \<Rightarrow> bool" where
  "symmetric a \<longleftrightarrow> (\<forall>i j. mget a i j = mget a j i)"

section \<open>The state of a BSplineBase\<close>

record BSplineBaseP =
  Q :: matrix
  LU :: matrix
  index :: "nat list"
  X :: "real list"
  Nodes :: "real list"

record BSplineBase =
  K :: int
  BC :: int
  OK :: bool
  xmin :: real
  xmax :: real
  alpha :: real
  waveLength :: real
  DX :: real
  M :: int
  NX :: int
  base :: BSplineBaseP

definition BoundaryConditions :: "real list list" where
  "BoundaryConditions = [[-4, -1, -1, -4], [0, 1, 1, 0], [2, -1, -1, 2]]"

definition PI :: real where
  "PI = 31415927 / 10000000"

section \<open>Alpha, Beta and the basis function\<close>

definition Alpha :: "BSplineBase \<Rightarrow> real \<Rightarrow> real" where
  "Alpha b wl =
     (let a = wl / (2 * PI);
          a = a * a
      in if K b = 2 then a * a
         else if K b = 3 then a * (a * a)
         else a)"

definition Beta :: "BSplineBase \<Rightarrow> int \<Rightarrow> real comp" where
  "Beta b m =
     (if m > 1 \<and> m < M b - 1 then oreturn 0
      else
        let m = (if m \<ge> M b - 1 then m - (M b - 3) else m)
        in if \<not> (0 \<le> BC b \<and> BC b \<le> 2) then ofail AssertionFailed
           else if \<not> (0 \<le> m \<and> m \<le> 3) then ofail AssertionFailed
           else oreturn (BoundaryConditions ! nat (BC b) ! nat m))"

text \<open>
  The first half of \<open>Basis\<close> (the local \<open>y\<close> before the boundary addend). With \<open>DX = 0\<close>
  the quotient \<open>(x - xm) / DX\<close> is an infinity or a NaN in the program, \<open>z < 2.0\<close> is false
  for both, and \<open>y\<close> stays 0.
\<close>

definition Basis_y :: "BSplineBase \<Rightarrow> int \<Rightarrow> real \<Rightarrow> real" where
  "Basis_y b m x =
     (let xm = xmin b + of_int m * DX b
      in if DX b = 0 then 0
         else
           let z = \<bar>(x - xm) / DX b\<bar>
           in if z < 2 then
                let z = 2 - z;
                    y = (1 / 4) * (z * z * z);
                    z = z - 1
                in if z > 0 then y - z * z * z else y
              else 0)"

text \<open>
  \<open>Basis\<close> is recursive: for \<open>m\<close> in \<open>{0, 1}\<close> it calls \<open>Basis (-1, x)\<close> and for \<open>m\<close> in
  \<open>{M-1, M}\<close> it calls \<open>Basis (M+1, x)\<close>. C++ leaves the order of the operands of
  \<open>Beta (m) * Basis (...)\<close> open; the model evaluates \<open>Beta\<close> first.
\<close>

lemma obind_mono [partial_function_mono]:
  assumes "mono_option B" and "\<And>y. mono_option (\<lambda>f. C y f)"
  shows "mono_option (\<lambda>f. obind (B f) (\<lambda>y. C y f))"
  unfolding obind_def
proof (rule bind_mono [OF assms(1)])
  fix r :: "'c outcome"
  show "mono_option (\<lambda>f. case r of Fail e \<Rightarrow> Some (Fail e) | Value v \<Rightarrow> C v f)"
    by (cases r) (simp_all add: assms(2) option.const_mono)
qed

partial_function (option) Basis :: "BSplineBase \<Rightarrow> int \<Rightarrow> real \<Rightarrow> real comp" where
  "Basis b m x =
     (let y = Basis_y b m x
      in if m = 0 \<or> m = 1 then
           obind (Beta b m) (\<lambda>be. obind (Basis b (-1) x) (\<lambda>g. oreturn (y + be * g)))
         else if m = M b - 1 \<or> m = M b then
           obind (Beta b m) (\<lambda>be. obind (Basis b (M b + 1) x) (\<lambda>g. oreturn (y + be * g)))
         else oreturn y)"

declare Basis.simps [code]

section \<open>The roughness integrals\<close>

definition qparts :: "real list list" where
  "qparts =
     [[0.11250, 0.63750, 0.63750, 0.11250],
      [0.00000, 0.13125, -0.54375, 0.13125],
      [0.00000, 0.00000, -0.22500, -0.22500],
      [0.00000, 0.00000, 0.00000, -0.01875]]"

text \<open>The loop of \<open>qDelta\<close>: \<open>for (m = ...; m < min (m1+2, M); ++m) q += qparts[m2-m1][m-m1+2]\<close>.\<close>

function qDelta_loop :: "BSplineBase \<Rightarrow> int \<Rightarrow> int \<Rightarrow> int \<Rightarrow> real \<Rightarrow> real" where
  "qDelta_loop b m1 m2 m q =
     (if m < min (m1 + 2) (M b)
      then qDelta_loop b m1 m2 (m + 1) (q + qparts ! nat (m2 - m1) ! nat (m - m1 + 2))
      else q)"
  by pat_completeness auto
termination
  by (relation "measure (\<lambda>(b, m1, m2, m, q). nat (min (m1 + 2) (M b) - m))") auto

declare qDelta_loop.simps [simp del]

definition qDelta :: "BSplineBase \<Rightarrow> int \<Rightarrow> int \<Rightarrow> real" where
  "qDelta b m1 m2 =
     (let (m1, m2) = (if m1 > m2 then (m2, m1) else (m1, m2))
      in if m2 - m1 > 3 then 0
         else qDelta_loop b m1 m2 (max (m1 - 2) 0) 0 * DX b * alpha b)"

section \<open>The roughness matrix\<close>

text \<open>
  \<open>calculateQ\<close> works on \<open>MatrixT &Q = base->Q\<close>; the loops below pass that matrix along
  and \<open>calculateQ\<close> stores it back. The first loop nest fills the diagonals.
\<close>

function calculateQ_fill_j :: "BSplineBase \<Rightarrow> int \<Rightarrow> int \<Rightarrow> matrix \<Rightarrow> matrix" where
  "calculateQ_fill_j b i j a =
     (if j < 4 \<and> i + j \<le> M b
      then let v = qDelta b i (i + j);
               a = mset a (i + j) i v;
               a = mset a i (i + j) v
           in calculateQ_fill_j b i (j + 1) a
      else a)"
  by pat_completeness auto
termination
  by (relation "measure (\<lambda>(b, i, j, a). nat (4 - j))") auto

declare calculateQ_fill_j.simps [simp del]

function calculateQ_fill :: "BSplineBase \<Rightarrow> int \<Rightarrow> matrix \<Rightarrow> matrix" where
  "calculateQ_fill b i a =
     (if i \<le> M b
      then let a = mset a i i (qDelta b i i);
               a = calculateQ_fill_j b i 1 a
           in calculateQ_fill b (i + 1) a
      else a)"
  by pat_completeness auto
termination
  by (relation "measure (\<lambda>(b, i, a). nat (M b + 1 - i))") auto

declare calculateQ_fill.simps [simp del]

lemma obind_cong [fundef_cong]:
  assumes "c = c'" and "\<And>v. c' = Some (Value v) \<Longrightarrow> f v = f' v"
  shows "obind c f = obind c' f'"
  using assms by (cases c') (auto simp: obind_def split: outcome.split)

text \<open>The upper left corner: \<open>Q[j][i] = (Q[i][j] += q)\<close> for \<open>i\<close> in 0..1, \<open>j\<close> in \<open>i..i+3\<close>.\<close>

function calculateQ_ul_j :: "BSplineBase \<Rightarrow> int \<Rightarrow> real \<Rightarrow> int \<Rightarrow> matrix \<Rightarrow> matrix comp" where
  "calculateQ_ul_j b i b1 j a =
     (if j < i + 4
      then obind (Beta b j) (\<lambda>b2.
             if \<not> (j - i \<ge> 0 \<and> j - i < 4) then ofail AssertionFailed
             else
               let q = 0;
                   q = (if i + 1 < 4 then q + b2 * qDelta b (-1) i else q);
                   q = (if j + 1 < 4 then q + b1 * qDelta b (-1) j else q);
                   q = q + b1 * b2 * qDelta b (-1) (-1);
                   a = mset a i j (mget a i j + q);
                   a = mset a j i (mget a i j)
               in calculateQ_ul_j b i b1 (j + 1) a)
      else oreturn a)"
  by pat_completeness auto
termination
  by (relation "measure (\<lambda>(b, i, b1, j, a). nat (i + 4 - j))") auto

declare calculateQ_ul_j.simps [simp del]

function calculateQ_ul :: "BSplineBase \<Rightarrow> int \<Rightarrow> matrix \<Rightarrow> matrix comp" where
  "calculateQ_ul b i a =
     (if i \<le> 1
      then obind (Beta b i) (\<lambda>b1.
             obind (calculateQ_ul_j b i b1 i a) (\<lambda>a. calculateQ_ul b (i + 1) a))
      else oreturn a)"
  by pat_completeness auto
termination
  by (relation "measure (\<lambda>(b, i, a). nat (2 - i))") auto

declare calculateQ_ul.simps [simp del]

text \<open>The lower right corner: \<open>i\<close> in \<open>M-1..M\<close>, \<open>j\<close> in \<open>i-3..i\<close>.\<close>

function calculateQ_lr_j :: "BSplineBase \<Rightarrow> int \<Rightarrow> real \<Rightarrow> int \<Rightarrow> matrix \<Rightarrow> matrix comp" where
  "calculateQ_lr_j b i b1 j a =
     (if j \<le> i
      then obind (Beta b j) (\<lambda>b2.
             let q = 0;
                 q = (if M b + 1 - i < 4 then q + b2 * qDelta b i (M b + 1) else q);
                 q = (if M b + 1 - j < 4 then q + b1 * qDelta b j (M b + 1) else q);
                 q = q + b1 * b2 * qDelta b (M b + 1) (M b + 1);
                 a = mset a i j (mget a i j + q);
                 a = mset a j i (mget a i j)
             in calculateQ_lr_j b i b1 (j + 1) a)
      else oreturn a)"
  by pat_completeness auto
termination
  by (relation "measure (\<lambda>(b, i, b1, j, a). nat (i + 1 - j))") auto

declare calculateQ_lr_j.simps [simp del]

function calculateQ_lr :: "BSplineBase \<Rightarrow> int \<Rightarrow> matrix \<Rightarrow> matrix comp" where
  "calculateQ_lr b i a =
     (if i \<le> M b
      then obind (Beta b i) (\<lambda>b1.
             obind (calculateQ_lr_j b i b1 (i - 3) a) (\<lambda>a. calculateQ_lr b (i + 1) a))
      else oreturn a)"
  by pat_completeness auto
termination
  by (relation "measure (\<lambda>(b, i, a). nat (M b + 1 - i))") auto

declare calculateQ_lr.simps [simp del]

definition set_Q :: "BSplineBase \<Rightarrow> matrix \<Rightarrow> BSplineBase" where
  "set_Q b a = b\<lparr>base := (base b)\<lparr>Q := a\<rparr>\<rparr>"

definition calculateQ :: "BSplineBase \<Rightarrow> BSplineBase comp" where
  "calculateQ b =
     (let a = setup_zero (M b + 1)
      in if alpha b = 0 then oreturn (set_Q b a)
         else
           let a = calculateQ_fill b 0 a
           in obind (calculateQ_ul b 0 a) (\<lambda>a.
              obind (calculateQ_lr b (M b - 1) a) (\<lambda>a.
              oreturn (set_Q b a))))"

section \<open>The data-fit contribution\<close>

text \<open>
  \<open>addP\<close> adds into the same matrix (\<open>MatrixT &P = base->Q\<close>). The middle loop is
  \<open>for (m = max (0, m-2); m <= min (M, m+2); ++m)\<close>: its bound reads the loop variable
  itself.
\<close>

function addP_n :: "BSplineBase \<Rightarrow> real \<Rightarrow> int \<Rightarrow> int \<Rightarrow> matrix \<Rightarrow> matrix comp" where
  "addP_n b x m n a =
     (if n \<le> min (M b) (m + 3)
      then obind (Basis b m x) (\<lambda>pm.
           obind (Basis b n x) (\<lambda>pn.
             let sum = pm * pn;
                 a = mset a m n (mget a m n + sum);
                 a = mset a n m (mget a n m + sum)
             in addP_n b x m (n + 1) a))
      else oreturn a)"
  by pat_completeness auto
termination
  by (relation "measure (\<lambda>(b, x, m, n, a). nat (min (M b) (m + 3) + 1 - n))") auto

declare addP_n.simps [simp del]

function addP_m :: "BSplineBase \<Rightarrow> real \<Rightarrow> int \<Rightarrow> matrix \<Rightarrow> matrix comp" where
  "addP_m b x m a =
     (if m \<le> min (M b) (m + 2)
      then obind (Basis b m x) (\<lambda>pm.
             let sum = pm * pm;
                 a = mset a m m (mget a m m + sum)
             in obind (addP_n b x m (m + 1) a) (\<lambda>a. addP_m b x (m + 1) a))
      else oreturn a)"
  by pat_completeness auto
termination
  by (relation "measure (\<lambda>(b, x, m, a). nat (M b + 1 - m))") auto

declare addP_m.simps [simp del]

text \<open>
  With \<open>DX = 0\<close> the quotient \<open>(x - xmin) / DX\<close> is an infinity or a NaN and its conversion to
  \<open>int\<close> is undefined in C++; the model starts the window at node 0 then. Every \<open>Basis\<close>
  value is 0 in that case, so the matrix is the same whichever start is taken.
\<close>

function addP_i :: "BSplineBase \<Rightarrow> int \<Rightarrow> matrix \<Rightarrow> matrix comp" where
  "addP_i b i a =
     (if i < NX b
      then obind (vget (X (base b)) i) (\<lambda>x.
             let m = (if DX b = 0 then 0 else float_to_int ((x - xmin b) / DX b))
             in obind (addP_m b x (max 0 (m - 2)) a) (\<lambda>a. addP_i b (i + 1) a))
      else oreturn a)"
  by pat_completeness auto
termination
  by (relation "measure (\<lambda>(b, i, a). nat (NX b - i))") auto

declare addP_i.simps [simp del]

definition addP :: "BSplineBase \<Rightarrow> BSplineBase comp" where
  "addP b = obind (addP_i b 0 (Q (base b))) (\<lambda>a. oreturn (set_Q b a))"

section \<open>Factoring\<close>

text \<open>
  \<open>LU_factor_banded\<close> (\<open>BSplineLU.h\<close>) is not part of the sources. It is a parameter of
  the model: a function from the matrix, the index vector and the number of bands to its
  return code and the updated matrix and index vector.
\<close>

type_synonym lu_factor = "matrix \<Rightarrow> nat list \<Rightarrow> nat \<Rightarrow> int \<times> matrix \<times> nat list"

definition factor :: "lu_factor \<Rightarrow> BSplineBase \<Rightarrow> bool \<times> BSplineBase" where
  "factor F b =
     (let idx = replicate (nat (M b + 1)) 0;
          (rc, lu, idx) = F (Q (base b)) idx 3;
          b = b\<lparr>base := (base b)\<lparr>LU := lu, index := idx\<rparr>\<rparr>
      in if rc \<noteq> 0 then (False, b) else (True, b))"

section \<open>Choosing the node grid\<close>

text \<open>
  \<open>Setup\<close> calls \<open>Ratio\<close> with \<open>ni \<ge> 10\<close> and, since it has tested \<open>waveLength == 0\<close>
  before, with a wavelength other than 0: no divisor of \<open>Ratio\<close> is 0 there.
\<close>

definition Ratio :: "BSplineBase \<Rightarrow> int \<Rightarrow> bool \<times> real \<times> real \<times> real" where
  "Ratio b ni =
     (let deltax = (xmax b - xmin b) / of_int ni;
          ratiof = deltax / waveLength b;
          rd = of_int (NX b) / of_int (ni + 1)
      in (rd \<ge> 1, deltax, ratiof, rd))"

definition fmin :: real where
  "fmin = 2"

text \<open>
  The first \<open>do ... while\<close> of \<open>Setup\<close>; \<open>None\<close> is its \<open>return false\<close>, and
  \<open>Some (ni, deltax, ratiof)\<close> are the locals when the loop is left.
\<close>

function Setup_coarse :: "BSplineBase \<Rightarrow> int \<Rightarrow> (int \<times> real \<times> real) option" where
  "Setup_coarse b ni =
     (let ni = ni + 1;
          r = Ratio b ni
      in if \<not> fst r then None
         else if fst (snd (snd r)) > fmin then Setup_coarse b ni
         else Some (ni, fst (snd r), fst (snd (snd r))))"
  by pat_completeness auto
termination
proof (relation "measure (\<lambda>(b, ni). nat (NX b - ni) + nat (- ni))", goal_cases)
  case 1
  show ?case by simp
next
  case (2 b ni ni' r)
  then have "real_of_int (NX b) / real_of_int (ni + 2) \<ge> 1"
    by (simp add: Ratio_def Let_def add.commute)
  then have "(0 < ni + 2 \<and> ni + 2 \<le> NX b) \<or> (ni + 2 < 0 \<and> NX b \<le> ni + 2)"
    by (cases "ni + 2 = 0"; cases "0 < ni + 2") (simp_all add: le_divide_eq divide_le_eq)
  with 2 show ?case by auto
qed

declare Setup_coarse.simps [simp del]

text \<open>The second \<open>do ... while\<close>; the result is \<open>(ni, deltax)\<close> as stored into \<open>M\<close> and \<open>DX\<close>.\<close>

function Setup_fine :: "BSplineBase \<Rightarrow> int \<Rightarrow> int \<times> real" where
  "Setup_fine b ni =
     (let ni = ni + 1;
          r = Ratio b ni
      in if \<not> fst r \<or> fst (snd (snd r)) > 15
         then let ni = ni - 1;
                  r = Ratio b ni
              in (ni, fst (snd r))
         else if fst (snd (snd r)) < 4 \<or> snd (snd (snd r)) > 2 then Setup_fine b ni
         else (ni, fst (snd r)))"
  by pat_completeness auto
termination
proof (relation "measure (\<lambda>(b, ni). nat (NX b - ni) + nat (- ni))", goal_cases)
  case 1
  show ?case by simp
next
  case (2 b ni ni' r)
  then have "real_of_int (NX b) / real_of_int (ni + 2) \<ge> 1"
    by (simp add: Ratio_def Let_def add.commute)
  then have "(0 < ni + 2 \<and> ni + 2 \<le> NX b) \<or> (ni + 2 < 0 \<and> NX b \<le> ni + 2)"
    by (cases "ni + 2 = 0"; cases "0 < ni + 2") (simp_all add: le_divide_eq divide_le_eq)
  with 2 show ?case by auto
qed

declare Setup_fine.simps [simp del]

text \<open>The scan for the minimum and maximum: \<open>for (i = 1; i < NX; ++i)\<close>.\<close>

function Setup_scan :: "BSplineBase \<Rightarrow> int \<Rightarrow> BSplineBase comp" where
  "Setup_scan b i =
     (if i < NX b
      then obind (vget (X (base b)) i) (\<lambda>xi.
             let b = (if xi < xmin b then b\<lparr>xmin := xi\<rparr>
                      else if xi > xmax b then b\<lparr>xmax := xi\<rparr>
                      else b)
             in Setup_scan b (i + 1))
      else oreturn b)"
  by pat_completeness auto
termination
  by (relation "measure (\<lambda>(b, i). nat (NX b - i))") auto

declare Setup_scan.simps [simp del]

definition Setup :: "BSplineBase \<Rightarrow> (bool \<times> BSplineBase) comp" where
  "Setup b =
     obind (vget (X (base b)) 0) (\<lambda>x0.
     obind (Setup_scan (b\<lparr>xmin := x0, xmax := x0\<rparr>) 1) (\<lambda>b.
       if waveLength b > xmax b - xmin b then oreturn (False, b)
       else if waveLength b = 0
         then oreturn (True, b\<lparr>DX := (xmax b - xmin b) / of_int (NX b), M := NX b\<rparr>)
       else
         (case Setup_coarse b 9 of
            None \<Rightarrow> oreturn (False, b)
          | Some (ni, deltax, ratiof) \<Rightarrow>
              (let (ni, deltax) = Setup_fine b ni
               in oreturn (True, b\<lparr>DX := deltax, M := ni\<rparr>)))))"

section \<open>setDomain\<close>

text \<open>
  The argument \<open>x\<close> is a pointer: \<open>None\<close> is the null pointer and \<open>Some arr\<close> points to
  the array \<open>arr\<close>. \<open>std::copy (x, x+nx, ...)\<close> reads \<open>nx\<close> elements of it.
\<close>

definition copy_n :: "real list \<Rightarrow> int \<Rightarrow> real list comp" where
  "copy_n arr nx = (if nat nx \<le> length arr then oreturn (take (nat nx) arr) else ofail OutOfBounds)"

definition setDomain ::
    "lu_factor \<Rightarrow> BSplineBase \<Rightarrow> real list option \<Rightarrow> int \<Rightarrow> real \<Rightarrow> int \<Rightarrow> (bool \<times> BSplineBase) comp" where
  "setDomain F b x nx wl bc =
     (if nx \<le> 0 \<or> x = None \<or> wl < 0 \<or> bc < 0 \<or> bc > 2 then oreturn (False, b)
      else
        case x of
          None \<Rightarrow> oreturn (False, b)
        | Some arr \<Rightarrow>
            let b = b\<lparr>OK := False, waveLength := wl, BC := bc\<rparr>
            in obind (copy_n arr nx) (\<lambda>xs.
                 let b = b\<lparr>base := (base b)\<lparr>X := xs\<rparr>\<rparr>;
                     b = b\<lparr>NX := int (length xs)\<rparr>
                 in obind (Setup b) (\<lambda>(ok, b).
                      if ok then
                        let b = b\<lparr>alpha := Alpha b (waveLength b)\<rparr>
                        in obind (calculateQ b) (\<lambda>b.
                           obind (addP b) (\<lambda>b.
                             let (fok, b) = factor F b
                             in if \<not> fok then oreturn (OK b, b)
                                else let b = b\<lparr>OK := True\<rparr> in oreturn (OK b, b)))
                      else oreturn (OK b, b))))"

section \<open>BSpline: fitting and the queries\<close>

text \<open>
  A \<open>BSpline\<close> is a \<open>BSplineBase\<close> (the base-class part, \<open>super\<close>) with the mean and the
  private vectors \<open>s\<close> (here \<open>sP\<close>). \<open>LU_solve_banded\<close> is not part of the sources and is a
  parameter: from the factored matrix, the index vector and the right-hand side to its
  return code and the solution.
\<close>

record BSplineP =
  spline :: "real list"
  A :: "real list"
  A2 :: "real list"

record BSpline =
  super :: BSplineBase
  mean :: real
  sP :: BSplineP

type_synonym lu_solve = "matrix \<Rightarrow> nat list \<Rightarrow> real list \<Rightarrow> int \<times> real list"

text \<open>The copy constructor \<open>BSplineBase (const BSplineBase &bb)\<close>.\<close>

definition BSplineBase_copy :: "BSplineBase \<Rightarrow> BSplineBase" where
  "BSplineBase_copy bb = bb\<lparr>NX := int (length (X (base bb)))\<rparr>"

function mean_loop :: "BSplineBase \<Rightarrow> real list \<Rightarrow> int \<Rightarrow> real \<Rightarrow> real comp" where
  "mean_loop b y i acc =
     (if i < NX b
      then obind (vget y i) (\<lambda>yi. mean_loop b y (i + 1) (acc + yi))
      else oreturn acc)"
  by pat_completeness auto
termination
  by (relation "measure (\<lambda>(b, y, i, acc). nat (NX b - i))") auto

declare mean_loop.simps [simp del]

function B_sum :: "BSplineBase \<Rightarrow> real list \<Rightarrow> real \<Rightarrow> int \<Rightarrow> int \<Rightarrow> real \<Rightarrow> real comp" where
  "B_sum b y mn m j sm =
     (if j < NX b
      then obind (vget y j) (\<lambda>yj.
           obind (vget (X (base b)) j) (\<lambda>xj.
           obind (Basis b m xj) (\<lambda>pm. B_sum b y mn m (j + 1) (sm + (yj - mn) * pm))))
      else oreturn sm)"
  by pat_completeness auto
termination
  by (relation "measure (\<lambda>(b, y, mn, m, j, sm). nat (NX b - j))") auto

declare B_sum.simps [simp del]

function B_loop :: "BSplineBase \<Rightarrow> real list \<Rightarrow> real \<Rightarrow> int \<Rightarrow> real list \<Rightarrow> real list comp" where
  "B_loop b y mn m B =
     (if m < M b + 1
      then obind (B_sum b y mn m 0 0) (\<lambda>sm. B_loop b y mn (m + 1) (B[nat m := sm]))
      else oreturn B)"
  by pat_completeness auto
termination
  by (relation "measure (\<lambda>(b, y, mn, m, B). nat (M b + 1 - m))") auto

declare B_loop.simps [simp del]

text \<open>
  The constructor \<open>BSpline (BSplineBase &bb, const float *y)\<close>. When \<open>bb\<close> is not OK it
  returns at once and \<open>mean\<close> keeps an indeterminate value, the argument \<open>mean0\<close>.
\<close>

definition BSpline_ctor :: "lu_solve \<Rightarrow> BSplineBase \<Rightarrow> real list \<Rightarrow> real \<Rightarrow> BSpline comp" where
  "BSpline_ctor S bb y mean0 =
     (let b = BSplineBase_copy bb;
          this = \<lparr>super = b, mean = mean0, sP = \<lparr>spline = [], A = [], A2 = []\<rparr>\<rparr>
      in if \<not> OK b then oreturn this
         else
           let B = replicate (nat (M b + 1)) 0
           in obind (mean_loop b y 0 0) (\<lambda>mn.
                let mn = mn / of_int (NX b);
                    this = this\<lparr>mean := mn\<rparr>
                in obind (B_loop b y mn 0 B) (\<lambda>B.
                     let (rc, luA) = S (LU (base b)) (index (base b)) B;
                         this = this\<lparr>sP := (sP this)\<lparr>A := luA\<rparr>\<rparr>
                     in if rc \<noteq> 0 then ofail Exit else oreturn this)))"

definition coefficient :: "BSpline \<Rightarrow> int \<Rightarrow> real comp" where
  "coefficient this n =
     (if OK (super this) then
        (if 0 \<le> n \<and> n \<le> M (super this) then vget (A (sP this)) n else oreturn 0)
      else oreturn 0)"

function evaluate_loop :: "BSpline \<Rightarrow> real \<Rightarrow> int \<Rightarrow> real \<Rightarrow> real comp" where
  "evaluate_loop this x i y =
     (if i \<le> M (super this)
      then obind (vget (A (sP this)) i) (\<lambda>ai.
           obind (Basis (super this) i x) (\<lambda>p. evaluate_loop this x (i + 1) (y + ai * p)))
      else oreturn y)"
  by pat_completeness auto
termination
  by (relation "measure (\<lambda>(this, x, i, y). nat (M (super this) + 1 - i))") auto

declare evaluate_loop.simps [simp del]

definition evaluate :: "BSpline \<Rightarrow> real \<Rightarrow> real comp" where
  "evaluate this x =
     (let y = 0
      in if OK (super this)
         then obind (evaluate_loop this x 0 y) (\<lambda>y. oreturn (y + mean this))
         else oreturn y)"

function curve_loop :: "BSpline \<Rightarrow> int \<Rightarrow> real list \<Rightarrow> real list comp" where
  "curve_loop this n sp =
     (if n \<le> M (super this)
      then let x = xmin (super this) + of_int n * DX (super this)
           in obind (evaluate this x) (\<lambda>v. curve_loop this (n + 1) (sp @ [v]))
      else oreturn sp)"
  by pat_completeness auto
termination
  by (relation "measure (\<lambda>(this, n, sp). nat (M (super this) + 1 - n))") auto

declare curve_loop.simps [simp del]

text \<open>
  \<open>curve\<close> returns a pointer: \<open>None\<close> is the null pointer, \<open>Some sp\<close> points to the cached
  vector, whose length is what \<open>*nx\<close> receives.
\<close>

definition curve :: "BSpline \<Rightarrow> (real list option \<times> BSpline) comp" where
  "curve this =
     (if \<not> OK (super this) then oreturn (None, this)
      else
        obind (if length (spline (sP this)) = 0
               then curve_loop this 0 (spline (sP this))
               else oreturn (spline (sP this))) (\<lambda>sp.
          oreturn (Some sp, this\<lparr>sP := (sP this)\<lparr>spline := sp\<rparr>\<rparr>)))"

section \<open>Concrete objects\<close>

text \<open>
  The object as the constructor \<open>BSplineBase (x, nx, wl, bc)\<close> has it before it calls
  \<open>setDomain\<close>: \<open>K = 1\<close>, \<open>OK = false\<close>, empty vectors; the members the constructor does
  not initialise are taken as 0.
\<close>

definition fresh :: BSplineBase where
  "fresh =
     \<lparr>K = 1, BC = 0, OK = False, xmin = 0, xmax = 0, alpha = 0, waveLength = 0, DX = 0,
      M = 0, NX = 0,
      base = \<lparr>Q = setup_zero 0, LU = setup_zero 0, index = [], X = [], Nodes = []\<rparr>\<rparr>"

text \<open>A factoring routine that fails exactly when the first diagonal cell is 0, and a solver.\<close>

definition factor_diag :: lu_factor where
  "factor_diag a idx k = (if mget a 0 0 = 0 then 1 else 0, a, idx)"

definition solve_id :: lu_solve where
  "solve_id lu idx rhs = (0, rhs)"

text \<open>The object after \<open>setDomain\<close> with the samples 0 and 1, no wavelength and type 1.\<close>

definition unit_grid :: BSplineBase where
  "unit_grid =
     (case setDomain factor_diag fresh (Some [0, 1]) 2 0 1 of
        Some (Value (ok, b)) \<Rightarrow> b
      | _ \<Rightarrow> fresh)"

section \<open>Views of setDomain used in the proofs\<close>

text \<open>
  The object as \<open>setDomain\<close> has it when it calls \<open>Setup\<close>, the part of \<open>setDomain\<close> inside
  \<open>if (Setup ())\<close>, and its last step around \<open>factor\<close>.
\<close>

definition prepared :: "BSplineBase \<Rightarrow> real \<Rightarrow> int \<Rightarrow> real list \<Rightarrow> BSplineBase" where
  "prepared b wl bc xs =
     b\<lparr>OK := False, waveLength := wl, BC := bc, base := (base b)\<lparr>X := xs\<rparr>, NX := int (length xs)\<rparr>"

definition finish :: "lu_factor \<Rightarrow> BSplineBase \<Rightarrow> (bool \<times> BSplineBase) comp" where
  "finish F b3 =
     (let (fok, b) = factor F b3
      in if \<not> fok then oreturn (OK b, b)
         else let b = b\<lparr>OK := True\<rparr> in oreturn (OK b, b))"

definition assemble :: "lu_factor \<Rightarrow> BSplineBase \<Rightarrow> (bool \<times> BSplineBase) comp" where
  "assemble F b =
     obind (calculateQ (b\<lparr>alpha := Alpha b (waveLength b)\<rparr>)) (\<lambda>b2.
     obind (addP b2) (\<lambda>b3. finish F b3))"

text \<open>
  The bodies of the loops of \<open>calculateQ\<close> and \<open>addP\<close>: \<open>Q[j][i] = (Q[i][j] += q)\<close>,
  \<open>P[m][n] += sum; P[n][m] += sum\<close>, and the value \<open>q\<close> of the two corner loops.
\<close>

definition mirror_add :: "matrix \<Rightarrow> int \<Rightarrow> int \<Rightarrow> real \<Rightarrow> matrix" where
  "mirror_add a i j q = (let a = mset a i j (mget a i j + q) in mset a j i (mget a i j))"

definition add_both :: "matrix \<Rightarrow> int \<Rightarrow> int \<Rightarrow> real \<Rightarrow> matrix" where
  "add_both a m n s = (let a = mset a m n (mget a m n + s) in mset a n m (mget a n m + s))"

definition ul_q :: "BSplineBase \<Rightarrow> int \<Rightarrow> real \<Rightarrow> int \<Rightarrow> real \<Rightarrow> real" where
  "ul_q b i b1 j b2 =
     (let q = 0;
          q = (if i + 1 < 4 then q + b2 * qDelta b (-1) i else q);
          q = (if j + 1 < 4 then q + b1 * qDelta b (-1) j else q)
      in q + b1 * b2 * qDelta b (-1) (-1))"

definition lr_q :: "BSplineBase \<Rightarrow> int \<Rightarrow> real \<Rightarrow> int \<Rightarrow> real \<Rightarrow> real" where
  "lr_q b i b1 j b2 =
     (let q = 0;
          q = (if M b + 1 - i < 4 then q + b2 * qDelta b i (M b + 1) else q);
          q = (if M b + 1 - j < 4 then q + b1 * qDelta b j (M b + 1) else q)
      in q + b1 * b2 * qDelta b (M b + 1) (M b + 1))"

text \<open>The object after the scan of \<open>Setup\<close> for the minimum and the maximum.\<close>

definition scanned :: "BSplineBase \<Rightarrow> BSplineBase" where
  "scanned b = b\<lparr>xmin := Min (set (X (base b))), xmax := Max (set (X (base b)))\<rparr>"

text \<open>
  Modelled from the spec: \<open>LU_factor_banded\<close> is not part of the sources. The spec says of
  the factorization that a singular matrix is a failure, reported upward. The matrix whose
  cells are all 0 is singular; \<open>rejects_zero F\<close> says that \<open>F\<close> reports a failure (a return
  code other than 0) on it.
\<close>

definition zero_matrix :: "matrix \<Rightarrow> bool" where
  "zero_matrix a \<longleftrightarrow> (\<forall>i j. mget a i j = 0)"

definition rejects_zero :: "lu_factor \<Rightarrow> bool" where
  "rejects_zero F \<longleftrightarrow> (\<forall>a idx k. zero_matrix a \<longrightarrow> fst (F a idx k) \<noteq> 0)"

text \<open>The object after a failed \<open>setDomain\<close> (five samples, a wavelength beyond their span).\<close>

definition sparse_base :: BSplineBase where
  "sparse_base =
     (case setDomain factor_diag fresh (Some [0, 1, 2, 3, 4]) 5 10 0 of
        Some (Value (ok, b)) \<Rightarrow> b
      | _ \<Rightarrow> fresh)"

definition sparse_spline :: BSpline where
  "sparse_spline =
     \<lparr>super = BSplineBase_copy sparse_base, mean = 0, sP = \<lparr>spline = [], A = [], A2 = []\<rparr>\<rparr>"

section \<open>Basic facts\<close>

lemma obind_oreturn [simp]: "obind (oreturn v) f = f v"
  by (simp add: obind_def oreturn_def)

lemma obind_ofail [simp]: "obind (ofail e) f = ofail e"
  by (simp add: obind_def ofail_def)

lemma obind_None [simp]: "obind None f = None"
  by (simp add: obind_def)

lemma obind_Some_Value [simp]: "obind (Some (Value v)) f = f v"
  by (simp add: obind_def)

lemma obind_Some_Fail [simp]: "obind (Some (Fail e)) f = Some (Fail e)"
  by (simp add: obind_def)

lemma oreturn_eq [simp]:
  "oreturn v = Some (Value w) \<longleftrightarrow> v = w" "oreturn v \<noteq> None" "oreturn v \<noteq> Some (Fail e)"
  "oreturn v = oreturn w \<longleftrightarrow> v = w"
  by (auto simp: oreturn_def)

lemma ofail_eq [simp]:
  "ofail e \<noteq> Some (Value w)" "ofail e \<noteq> None" "ofail e \<noteq> oreturn v"
  by (auto simp: ofail_def oreturn_def)

lemma obind_eq_Value:
  "obind c f = Some (Value w) \<longleftrightarrow> (\<exists>v. c = Some (Value v) \<and> f v = Some (Value w))"
  by (cases c) (auto simp: obind_def split: outcome.split)

lemma obind_eq_oreturn:
  "obind c f = oreturn w \<longleftrightarrow> (\<exists>v. c = oreturn v \<and> f v = oreturn w)"
  by (simp add: oreturn_def obind_eq_Value)

lemma Beta_returns: "\<exists>r. Beta b m = Some r"
  by (simp add: Beta_def Let_def oreturn_def ofail_def)

lemma Basis_ghost_left: "1 \<le> M b \<Longrightarrow> Basis b (-1) x = oreturn (Basis_y b (-1) x)"
  by (subst Basis.simps) (simp add: Let_def)

lemma Basis_ghost_right: "1 \<le> M b \<Longrightarrow> Basis b (M b + 1) x = oreturn (Basis_y b (M b + 1) x)"
  by (subst Basis.simps) (simp add: Let_def)

lemma unit_grid_succeeds:
  "(case setDomain factor_diag fresh (Some [0, 1]) 2 0 1 of
      Some (Value (ok, b)) \<Rightarrow> ok | _ \<Rightarrow> False)"
  by code_simp

lemma unit_grid_setDomain:
  "setDomain factor_diag fresh (Some [0, 1]) 2 0 1 = oreturn (True, unit_grid)"
  using unit_grid_succeeds
  by (auto simp: unit_grid_def oreturn_def split: option.splits outcome.splits)

lemma unit_grid_fields:
  "OK unit_grid" "M unit_grid = 2" "DX unit_grid = 1 / 2" "BC unit_grid = 1" 
  "xmin unit_grid = 0" "xmax unit_grid = 1" "NX unit_grid = 2" "X (base unit_grid) = [0, 1]"
  by code_simp+

section \<open>Facts about Setup and setDomain\<close>

lemma setDomain_guard:
  "nx \<le> 0 \<or> x = None \<or> wl < 0 \<or> bc < 0 \<or> bc > 2 \<Longrightarrow> setDomain F b x nx wl bc = oreturn (False, b)"
  by (simp add: setDomain_def)

lemma setDomain_unfold:
  assumes "0 < nx" "0 \<le> wl" "0 \<le> bc" "bc \<le> 2"
  shows "setDomain F b (Some arr) nx wl bc =
     obind (copy_n arr nx) (\<lambda>xs.
     obind (Setup (prepared b wl bc xs)) (\<lambda>r.
       if fst r then assemble F (snd r) else oreturn (OK (snd r), snd r)))"
  using assms
  by (simp add: setDomain_def prepared_def assemble_def finish_def Let_def case_prod_unfold cong: if_cong)

lemma Setup_scan_step:
  "i < NX b \<Longrightarrow> Setup_scan b i =
     obind (vget (X (base b)) i) (\<lambda>xi.
       Setup_scan (if xi < xmin b then b\<lparr>xmin := xi\<rparr> else if xi > xmax b then b\<lparr>xmax := xi\<rparr> else b) (i + 1))"
  "\<not> i < NX b \<Longrightarrow> Setup_scan b i = oreturn b"
  by (subst Setup_scan.simps, simp add: Let_def)+

lemma Setup_scan_result:
  assumes "NX b = int (length (X (base b)))" "1 \<le> i" "i \<le> NX b"
    and "xmin b = Min (set (take (nat i) (X (base b))))"
    and "xmax b = Max (set (take (nat i) (X (base b))))"
  shows "Setup_scan b i = oreturn (b\<lparr>xmin := Min (set (X (base b))), xmax := Max (set (X (base b)))\<rparr>)"
  using assms
proof (induction b i rule: Setup_scan.induct)
  case (1 b i)
  let ?xs = "X (base b)"
  show ?case
  proof (cases "i < NX b")
    case False
    with 1(2-) have "nat i = length ?xs" by simp
    with 1(2-) False show ?thesis
      by (simp add: Setup_scan_step)
  next
    case True
    define xi where "xi = ?xs ! nat i"
    define b1 where "b1 = (if xi < xmin b then b\<lparr>xmin := xi\<rparr> else if xi > xmax b then b\<lparr>xmax := xi\<rparr> else b)"
    have get: "vget ?xs i = Some (Value xi)"
      using True 1(2-) by (simp add: vget_def xi_def oreturn_def)
    have ne: "set (take (nat i) ?xs) \<noteq> {}" "finite (set (take (nat i) ?xs))"
      using True 1(2-) by auto
    have tk: "set (take (nat (i + 1)) ?xs) = insert xi (set (take (nat i) ?xs))"
      using True 1(2-) by (simp add: nat_add_distrib take_Suc_conv_app_nth xi_def)
    have le: "xmin b \<le> xmax b"
      using ne 1(5,6) by (metis Max_in Min_le)
    have b1: "NX b1 = NX b" "base b1 = base b"
      "xmin b1 = min xi (xmin b)" "xmax b1 = max xi (xmax b)"
      using le by (auto simp: b1_def)
    have "Setup_scan b1 (i + 1) = oreturn (b1\<lparr>xmin := Min (set (X (base b1))), xmax := Max (set (X (base b1)))\<rparr>)"
    proof (rule 1(1) [OF True get])
      show "b1 = (if xi < xmin b then b\<lparr>xmin := xi\<rparr> else if xmax b < xi then b\<lparr>xmax := xi\<rparr> else b)"
        by (simp add: b1_def)
      show "NX b1 = int (length (X (base b1)))" using 1(2) b1 by simp
      show "1 \<le> i + 1" using 1(3) by simp
      show "i + 1 \<le> NX b1" using True b1 by simp
      show "xmin b1 = Min (set (take (nat (i + 1)) (X (base b1))))"
        using ne 1(5) by (simp add: b1 tk del: set_empty)
      show "xmax b1 = Max (set (take (nat (i + 1)) (X (base b1))))"
        using ne 1(6) by (simp add: b1 tk del: set_empty)
    qed
    moreover have "b1\<lparr>xmin := lo, xmax := hi\<rparr> = b\<lparr>xmin := lo, xmax := hi\<rparr>" for lo hi
      by (simp add: b1_def)
    ultimately show ?thesis
      using True get by (simp add: Setup_scan_step b1_def [symmetric] b1)
  qed
qed


lemma Setup_unfold:
  assumes "NX b = int (length (X (base b)))" "X (base b) \<noteq> []"
  shows "Setup b =
     (if waveLength b > xmax (scanned b) - xmin (scanned b) then oreturn (False, scanned b)
      else if waveLength b = 0
        then oreturn (True, (scanned b)\<lparr>DX := (xmax (scanned b) - xmin (scanned b)) / of_int (NX b), M := NX b\<rparr>)
      else
        (case Setup_coarse (scanned b) 9 of
           None \<Rightarrow> oreturn (False, scanned b)
         | Some (ni, deltax, ratiof) \<Rightarrow>
             (let (ni, deltax) = Setup_fine (scanned b) ni
              in oreturn (True, (scanned b)\<lparr>DX := deltax, M := ni\<rparr>))))"
proof -
  let ?xs = "X (base b)"
  let ?b0 = "b\<lparr>xmin := ?xs ! 0, xmax := ?xs ! 0\<rparr>"
  have len: "0 < length ?xs" using assms(2) by simp
  have get: "vget ?xs 0 = oreturn (?xs ! 0)"
    using len by (simp add: vget_def)
  have tk: "take (Suc 0) ?xs = [?xs ! 0]"
    using len by (cases ?xs) simp_all
  have "Setup_scan ?b0 1 = oreturn (?b0\<lparr>xmin := Min (set (X (base ?b0))), xmax := Max (set (X (base ?b0)))\<rparr>)"
    by (rule Setup_scan_result) (use assms len in \<open>auto simp: tk Suc_le_eq\<close>)
  then have scan: "Setup_scan ?b0 1 = oreturn (scanned b)"
    by (simp add: scanned_def)
  have same: "waveLength (scanned b) = waveLength b" "NX (scanned b) = NX b"
    by (simp_all add: scanned_def)
  show ?thesis
    by (simp add: Setup_def get scan same)
qed

lemma Setup_coarse_gt: "Setup_coarse b ni = Some (n1, dx, rf) \<Longrightarrow> ni < n1"
proof (induction b ni rule: Setup_coarse.induct)
  case (1 b ni)
  let ?r = "Ratio b (ni + 1)"
  show ?case
  proof (cases "fst ?r \<and> fmin < fst (snd (snd ?r))")
    case True
    then have rec: "Setup_coarse b (ni + 1) = Some (n1, dx, rf)"
      using 1(2) by (subst (asm) Setup_coarse.simps) (simp add: Let_def)
    have "ni + 1 < n1"
      by (rule 1(1) [OF refl refl _ _ rec]) (use True in simp_all)
    then show ?thesis by simp
  next
    case False
    then show ?thesis
      using 1(2) by (subst (asm) Setup_coarse.simps) (auto simp: Let_def split: if_splits)
  qed
qed

lemma Setup_fine_result:
  "Setup_fine b ni = (n2, dx) \<Longrightarrow> ni \<le> n2 \<and> dx = (xmax b - xmin b) / of_int n2"
proof (induction b ni rule: Setup_fine.induct)
  case (1 b ni)
  let ?r = "Ratio b (ni + 1)"
  show ?case
  proof (cases "\<not> fst ?r \<or> 15 < fst (snd (snd ?r))")
    case True
    then show ?thesis
      using 1(2) by (subst (asm) Setup_fine.simps) (auto simp: Let_def Ratio_def)
  next
    case stay: False
    show ?thesis
    proof (cases "fst (snd (snd ?r)) < 4 \<or> 2 < snd (snd (snd ?r))")
      case True
      then have rec: "Setup_fine b (ni + 1) = (n2, dx)"
        using 1(2) stay by (subst (asm) Setup_fine.simps) (simp add: Let_def)
      have "ni + 1 \<le> n2 \<and> dx = (xmax b - xmin b) / of_int n2"
        by (rule 1(1) [OF refl refl _ _ rec]) (use True stay in simp_all)
      then show ?thesis by simp
    next
      case False
      then show ?thesis
        using 1(2) stay by (subst (asm) Setup_fine.simps) (auto simp: Let_def Ratio_def)
    qed
  qed
qed

lemma calculateQ_frame: "calculateQ b = Some (Value b') \<Longrightarrow> \<exists>a. b' = set_Q b a"
  by (auto simp: calculateQ_def Let_def obind_eq_Value oreturn_def split: if_splits)

lemma addP_frame: "addP b = Some (Value b') \<Longrightarrow> \<exists>a. b' = set_Q b a"
  by (auto simp: addP_def obind_eq_Value oreturn_def)

lemma finish_frame:
  assumes "finish F b = Some (Value (r, b'))"
  shows "OK b' = r"
    and "r \<Longrightarrow> \<not> OK b \<Longrightarrow> fst (F (Q (base b)) (replicate (nat (M b + 1)) 0) 3) = 0"
    and "b' = b\<lparr>base := (base b)\<lparr>LU := LU (base b'), index := index (base b')\<rparr>, OK := r\<rparr>"
  using assms
  by (auto simp: finish_def factor_def Let_def case_prod_unfold oreturn_def split: if_splits)

lemma assemble_cases:
  assumes "assemble F b = Some (Value (r, b'))"
  obtains b2 b3 where "calculateQ (b\<lparr>alpha := Alpha b (waveLength b)\<rparr>) = Some (Value b2)"
    "addP b2 = Some (Value b3)" "finish F b3 = Some (Value (r, b'))"
  using assms by (auto simp: assemble_def obind_eq_Value)

lemma assemble_frame:
  assumes "assemble F b = Some (Value (r, b'))"
  shows "OK b' = r" "M b' = M b" "DX b' = DX b" "xmin b' = xmin b" "xmax b' = xmax b"
    "NX b' = NX b" "X (base b') = X (base b)" "BC b' = BC b" "waveLength b' = waveLength b"
proof -
  from assms obtain b2 b3 where
    q: "calculateQ (b\<lparr>alpha := Alpha b (waveLength b)\<rparr>) = Some (Value b2)"
    and p: "addP b2 = Some (Value b3)" and f: "finish F b3 = Some (Value (r, b'))"
    by (rule assemble_cases)
  from calculateQ_frame [OF q] obtain a2 where b2: "b2 = set_Q (b\<lparr>alpha := Alpha b (waveLength b)\<rparr>) a2" ..
  from addP_frame [OF p] obtain a3 where b3: "b3 = set_Q b2 a3" ..
  note b' = finish_frame(3) [OF f]
  show "OK b' = r"
    by (rule finish_frame(1) [OF f])
  show "M b' = M b" "DX b' = DX b" "xmin b' = xmin b" "xmax b' = xmax b"
    "NX b' = NX b" "X (base b') = X (base b)" "BC b' = BC b" "waveLength b' = waveLength b"
    by (subst b', simp add: b3 b2 set_Q_def)+
qed

lemma copy_n_Value: "copy_n arr nx = Some (Value xs) \<longleftrightarrow> nat nx \<le> length arr \<and> xs = take (nat nx) arr"
  by (auto simp: copy_n_def oreturn_def ofail_def)

lemma setDomain_valid_cases:
  assumes "\<not> (nx \<le> 0 \<or> x = None \<or> wl < 0 \<or> bc < 0 \<or> bc > 2)"
    and "setDomain F b x nx wl bc = Some (Value (r, b'))"
  obtains arr ok b1 where "x = Some arr" "nat nx \<le> length arr"
    "Setup (prepared b wl bc (take (nat nx) arr)) = Some (Value (ok, b1))"
    "ok \<Longrightarrow> assemble F b1 = Some (Value (r, b'))"
    "\<not> ok \<Longrightarrow> r = OK b1 \<and> b' = b1"
proof -
  from assms(1) obtain arr where x: "x = Some arr" by auto
  have "setDomain F b (Some arr) nx wl bc =
     obind (copy_n arr nx) (\<lambda>xs.
     obind (Setup (prepared b wl bc xs)) (\<lambda>r.
       if fst r then assemble F (snd r) else oreturn (OK (snd r), snd r)))"
    using assms(1) by (intro setDomain_unfold) auto
  with assms(2) x obtain xs p where "copy_n arr nx = Some (Value xs)"
    "Setup (prepared b wl bc xs) = Some (Value p)"
    "(if fst p then assemble F (snd p) else oreturn (OK (snd p), snd p)) = Some (Value (r, b'))"
    by (auto simp: obind_eq_Value)
  then show thesis
    using x that [of arr "fst p" "snd p"] by (auto simp: copy_n_Value oreturn_def split: if_splits)
qed

lemma setDomain_returns_OK:
  assumes "\<not> (nx \<le> 0 \<or> x = None \<or> wl < 0 \<or> bc < 0 \<or> bc > 2)"
    and "setDomain F b x nx wl bc = Some (Value (r, b'))"
  shows "OK b' = r"
  using assms(1,2)
proof (rule setDomain_valid_cases)
  fix arr ok b1
  assume "ok \<Longrightarrow> assemble F b1 = Some (Value (r, b'))" "\<not> ok \<Longrightarrow> r = OK b1 \<and> b' = b1"
  then show ?thesis
    by (cases ok) (auto dest: assemble_frame(1))
qed

lemma sparse_base_fails:
  "(case setDomain factor_diag fresh (Some [0, 1, 2, 3, 4]) 5 10 0 of
      Some (Value (ok, b)) \<Rightarrow> \<not> ok \<and> \<not> OK b | _ \<Rightarrow> False)"
  by code_simp

lemma sparse_base_setDomain:
  "setDomain factor_diag fresh (Some [0, 1, 2, 3, 4]) 5 10 0 = oreturn (False, sparse_base)"
  "\<not> OK sparse_base"
  using sparse_base_fails
  by (auto simp: sparse_base_def oreturn_def split: option.splits outcome.splits)

lemma sparse_spline_ctor:
  "BSpline_ctor solve_id sparse_base [1, 2, 3, 4, 5] 0 = oreturn sparse_spline"
  by (simp add: BSpline_ctor_def Let_def sparse_spline_def BSplineBase_copy_def sparse_base_setDomain)

lemma prepared_fields [simp]:
  "NX (prepared b wl bc xs) = int (length xs)" "X (base (prepared b wl bc xs)) = xs"
  "waveLength (prepared b wl bc xs) = wl" "BC (prepared b wl bc xs) = bc"
  "\<not> OK (prepared b wl bc xs)" "K (prepared b wl bc xs) = K b"
  by (simp_all add: prepared_def)

lemma scanned_fields [simp]:
  "xmin (scanned b) = Min (set (X (base b)))" "xmax (scanned b) = Max (set (X (base b)))"
  "NX (scanned b) = NX b" "base (scanned b) = base b" "waveLength (scanned b) = waveLength b"
  "BC (scanned b) = BC b" "OK (scanned b) = OK b" "K (scanned b) = K b"
  by (simp_all add: scanned_def)

lemma Setup_prepared:
  assumes "xs \<noteq> []"
  shows "Setup (prepared b wl bc xs) =
     (let b1 = scanned (prepared b wl bc xs)
      in if wl > Max (set xs) - Min (set xs) then oreturn (False, b1)
         else if wl = 0
           then oreturn (True, b1\<lparr>DX := (Max (set xs) - Min (set xs)) / of_int (int (length xs)), M := int (length xs)\<rparr>)
         else
           (case Setup_coarse b1 9 of
              None \<Rightarrow> oreturn (False, b1)
            | Some (ni, deltax, ratiof) \<Rightarrow>
                (let (ni, deltax) = Setup_fine b1 ni
                 in oreturn (True, b1\<lparr>DX := deltax, M := ni\<rparr>))))"
  using assms by (subst Setup_unfold) (simp_all add: Let_def)

lemma setDomain_valid:
  assumes "0 < nx" "nat nx \<le> length arr" "0 \<le> wl" "0 \<le> bc" "bc \<le> 2"
  shows "setDomain F b (Some arr) nx wl bc =
     obind (Setup (prepared b wl bc (take (nat nx) arr))) (\<lambda>r.
       if fst r then assemble F (snd r) else oreturn (OK (snd r), snd r))"
  using assms by (simp add: setDomain_unfold copy_n_def)

lemma take_nonempty: "0 < nx \<Longrightarrow> nat nx \<le> length arr \<Longrightarrow> take (nat nx) arr \<noteq> []"
  by (cases arr) auto

lemma Min_le_Max_list: "xs \<noteq> [] \<Longrightarrow> Min (set xs) \<le> Max (set xs)"
  by (metis List.finite_set Max_in Min_le set_empty)

lemma Setup_coarse_sparse: "NX b \<le> 10 \<Longrightarrow> Setup_coarse b 9 = None"
  by (subst Setup_coarse.simps) (simp add: Let_def Ratio_def)

lemma setDomain_ten_fails:
  "setDomain F b (Some [0, 1, 2, 3, 4, 5, 6, 7, 8, 9]) 10 3 0
     = oreturn (False, scanned (prepared b 3 0 [0, 1, 2, 3, 4, 5, 6, 7, 8, 9]))"
proof -
  let ?xs = "[0, 1, 2, 3, 4, 5, 6, 7, 8, 9 :: real]"
  have "Setup (prepared b 3 0 ?xs) = oreturn (False, scanned (prepared b 3 0 ?xs))"
    by (simp add: Setup_prepared Let_def Setup_coarse_sparse)
  then show ?thesis
    by (simp add: setDomain_valid)
qed

section \<open>Facts about the matrix and its assembly\<close>

lemma calculateQ_ul_j_step:
  "calculateQ_ul_j b i b1 j a =
     (if j < i + 4
      then obind (Beta b j) (\<lambda>b2.
             if \<not> (j - i \<ge> 0 \<and> j - i < 4) then ofail AssertionFailed
             else calculateQ_ul_j b i b1 (j + 1) (mirror_add a i j (ul_q b i b1 j b2)))
      else oreturn a)"
  by (subst calculateQ_ul_j.simps) (simp add: mirror_add_def ul_q_def Let_def cong: if_cong)

lemma calculateQ_lr_j_step:
  "calculateQ_lr_j b i b1 j a =
     (if j \<le> i
      then obind (Beta b j) (\<lambda>b2. calculateQ_lr_j b i b1 (j + 1) (mirror_add a i j (lr_q b i b1 j b2)))
      else oreturn a)"
  by (subst calculateQ_lr_j.simps) (simp add: mirror_add_def lr_q_def Let_def cong: if_cong)

lemma addP_n_step:
  "addP_n b x m n a =
     (if n \<le> min (M b) (m + 3)
      then obind (Basis b m x) (\<lambda>pm.
           obind (Basis b n x) (\<lambda>pn. addP_n b x m (n + 1) (add_both a m n (pm * pn))))
      else oreturn a)"
  by (subst addP_n.simps) (simp add: add_both_def Let_def cong: if_cong)

lemma addP_m_step:
  "addP_m b x m a =
     (if m \<le> M b
      then obind (Basis b m x) (\<lambda>pm.
             obind (addP_n b x m (m + 1) (mset a m m (mget a m m + pm * pm))) (\<lambda>a.
               addP_m b x (m + 1) a))
      else oreturn a)"
  by (subst addP_m.simps) (simp add: Let_def cong: if_cong)

lemma in_band_commute: "in_band a i j = in_band a j i"
  by (auto simp: in_band_def)

lemma in_band_cells [simp]: "in_band (a\<lparr>cells := c\<rparr>) k l = in_band a k l"
  by (simp add: in_band_def)

lemma in_band_mset [simp]: "in_band (mset a i j v) k l = in_band a k l"
  by (simp add: mset_def)

lemma mget_mset:
  "mget (mset a i j v) k l = (if in_band a i j \<and> k = i \<and> l = j then v else mget a k l)"
  by (auto simp: mget_def mset_def)

lemma mget_mset_pair:
  "mget (mset (mset a i j v) j i v) k l =
     (if in_band a i j \<and> ((k = i \<and> l = j) \<or> (k = j \<and> l = i)) then v else mget a k l)"
  unfolding mget_mset in_band_mset using in_band_commute [of a j i] by auto

lemma symmetric_mset_pair:
  assumes "symmetric a"
  shows "symmetric (mset (mset a i j v) j i v)"
  unfolding symmetric_def
proof (intro allI)
  fix k l
  have "mget a k l = mget a l k"
    using assms by (simp add: symmetric_def)
  then show "mget (mset (mset a i j v) j i v) k l = mget (mset (mset a i j v) j i v) l k"
    unfolding mget_mset_pair by auto
qed

lemma symmetric_mset_diag:
  assumes "symmetric a"
  shows "symmetric (mset a i i v)"
  unfolding symmetric_def
proof (intro allI)
  fix k l
  have "mget a k l = mget a l k"
    using assms by (simp add: symmetric_def)
  then show "mget (mset a i i v) k l = mget (mset a i i v) l k"
    unfolding mget_mset by auto
qed

lemma symmetric_add_mirror:
  assumes "symmetric a"
  shows "symmetric (mset (mset a i j w) j i (mget (mset a i j w) i j))"
proof (cases "in_band a i j")
  case True
  then have "mget (mset a i j w) i j = w"
    unfolding mget_mset by simp
  then show ?thesis
    using symmetric_mset_pair [OF assms, of i j w] by simp
next
  case False
  then have "mset (mset a i j w) j i (mget (mset a i j w) i j) = a"
    using in_band_commute [of a j i] by (simp add: mset_def)
  with assms show ?thesis by simp
qed

lemma symmetric_add_both:
  assumes "symmetric a"
  shows "symmetric (mset (mset a m n (mget a m n + s)) n m (mget (mset a m n (mget a m n + s)) n m + s))"
proof (cases "m = n")
  case True
  then show ?thesis
    using assms by (simp add: symmetric_mset_diag)
next
  case False
  have "mget a n m = mget a m n"
    using assms by (simp add: symmetric_def)
  with False have "mget (mset a m n (mget a m n + s)) n m + s = mget a m n + s"
    unfolding mget_mset by auto
  then show ?thesis
    using symmetric_mset_pair [OF assms, of m n "mget a m n + s"] by simp
qed

lemma zero_matrix_mset: "zero_matrix a \<Longrightarrow> zero_matrix (mset a i j 0)"
  unfolding zero_matrix_def mget_mset by simp


lemma symmetric_setup_zero: "symmetric (setup_zero n)"
  by (simp add: symmetric_def mget_def setup_zero_def)

lemma symmetric_mirror_add: "symmetric a \<Longrightarrow> symmetric (mirror_add a i j q)"
  by (simp add: mirror_add_def Let_def symmetric_add_mirror)

lemma symmetric_add_both': "symmetric a \<Longrightarrow> symmetric (add_both a m n s)"
  by (simp add: add_both_def Let_def symmetric_add_both)

lemma calculateQ_fill_j_symmetric:
  "symmetric a \<Longrightarrow> symmetric (calculateQ_fill_j b i j a)"
proof (induction "nat (4 - j)" arbitrary: j a)
  case 0
  then show ?case
    by (subst calculateQ_fill_j.simps) simp
next
  case (Suc n)
  show ?case
  proof (cases "j < 4 \<and> i + j \<le> M b")
    case True
    let ?v = "qDelta b i (i + j)"
    have "symmetric (calculateQ_fill_j b i (j + 1) (mset (mset a (i + j) i ?v) i (i + j) ?v))"
      using Suc(2) by (intro Suc(1) symmetric_mset_pair Suc(3)) simp
    with True show ?thesis
      by (subst calculateQ_fill_j.simps) (simp add: Let_def)
  next
    case False
    with Suc(3) show ?thesis
      by (subst calculateQ_fill_j.simps) auto
  qed
qed

lemma calculateQ_fill_symmetric:
  "symmetric a \<Longrightarrow> symmetric (calculateQ_fill b i a)"
proof (induction "nat (M b + 1 - i)" arbitrary: i a)
  case 0
  then show ?case
    by (subst calculateQ_fill.simps) simp
next
  case (Suc n)
  have "symmetric (calculateQ_fill b (i + 1) (calculateQ_fill_j b i 1 (mset a i i (qDelta b i i))))"
    using Suc(2) by (intro Suc(1) calculateQ_fill_j_symmetric symmetric_mset_diag Suc(3)) simp
  with Suc(3) show ?case
    by (subst calculateQ_fill.simps) (simp add: Let_def)
qed

lemma calculateQ_ul_j_symmetric:
  "symmetric a \<Longrightarrow> calculateQ_ul_j b i b1 j a = Some (Value a') \<Longrightarrow> symmetric a'"
proof (induction "nat (i + 4 - j)" arbitrary: j a)
  case 0
  then show ?case
    by (subst (asm) calculateQ_ul_j_step) (simp add: oreturn_def)
next
  case (Suc n)
  from Suc(2) have lt: "j < i + 4" by simp
  from Suc(4) lt obtain b2 where
    rec: "calculateQ_ul_j b i b1 (j + 1) (mirror_add a i j (ul_q b i b1 j b2)) = Some (Value a')"
    by (subst (asm) calculateQ_ul_j_step) (auto simp: obind_eq_Value split: if_splits)
  show ?case
    using Suc(2) by (intro Suc(1) [OF _ _ rec] symmetric_mirror_add Suc(3)) simp
qed

lemma calculateQ_lr_j_symmetric:
  "symmetric a \<Longrightarrow> calculateQ_lr_j b i b1 j a = Some (Value a') \<Longrightarrow> symmetric a'"
proof (induction "nat (i + 1 - j)" arbitrary: j a)
  case 0
  then show ?case
    by (subst (asm) calculateQ_lr_j_step) (simp add: oreturn_def)
next
  case (Suc n)
  from Suc(2) have le: "j \<le> i" by simp
  from Suc(4) le obtain b2 where
    rec: "calculateQ_lr_j b i b1 (j + 1) (mirror_add a i j (lr_q b i b1 j b2)) = Some (Value a')"
    by (subst (asm) calculateQ_lr_j_step) (auto simp: obind_eq_Value)
  show ?case
    using Suc(2) by (intro Suc(1) [OF _ _ rec] symmetric_mirror_add Suc(3)) simp
qed

lemma calculateQ_ul_symmetric:
  "symmetric a \<Longrightarrow> calculateQ_ul b i a = Some (Value a') \<Longrightarrow> symmetric a'"
proof (induction "nat (2 - i)" arbitrary: i a)
  case 0
  then show ?case
    by (subst (asm) calculateQ_ul.simps) (simp add: oreturn_def)
next
  case (Suc n)
  from Suc(2) have le: "i \<le> 1" by simp
  from Suc(4) le obtain b1 a1 where
    inner: "calculateQ_ul_j b i b1 i a = Some (Value a1)"
    and rec: "calculateQ_ul b (i + 1) a1 = Some (Value a')"
    by (subst (asm) calculateQ_ul.simps) (auto simp: obind_eq_Value)
  show ?case
    using Suc(2) by (intro Suc(1) [OF _ _ rec] calculateQ_ul_j_symmetric [OF Suc(3) inner]) simp
qed

lemma calculateQ_lr_symmetric:
  "symmetric a \<Longrightarrow> calculateQ_lr b i a = Some (Value a') \<Longrightarrow> symmetric a'"
proof (induction "nat (M b + 1 - i)" arbitrary: i a)
  case 0
  then show ?case
    by (subst (asm) calculateQ_lr.simps) (simp add: oreturn_def)
next
  case (Suc n)
  from Suc(2) have le: "i \<le> M b" by simp
  from Suc(4) le obtain b1 a1 where
    inner: "calculateQ_lr_j b i b1 (i - 3) a = Some (Value a1)"
    and rec: "calculateQ_lr b (i + 1) a1 = Some (Value a')"
    by (subst (asm) calculateQ_lr.simps) (auto simp: obind_eq_Value)
  show ?case
    using Suc(2) by (intro Suc(1) [OF _ _ rec] calculateQ_lr_j_symmetric [OF Suc(3) inner]) simp
qed

lemma Q_set_Q [simp]: "Q (base (set_Q b a)) = a"
  by (simp add: set_Q_def)

lemma calculateQ_symmetric:
  assumes "calculateQ b = Some (Value b')"
  shows "symmetric (Q (base b'))"
proof (cases "alpha b = 0")
  case True
  with assms show ?thesis
    by (auto simp: calculateQ_def Let_def oreturn_def symmetric_setup_zero)
next
  case False
  with assms obtain a1 a2 where
    ul: "calculateQ_ul b 0 (calculateQ_fill b 0 (setup_zero (M b + 1))) = Some (Value a1)"
    and lr: "calculateQ_lr b (M b - 1) a1 = Some (Value a2)"
    and b': "b' = set_Q b a2"
    by (auto simp: calculateQ_def Let_def oreturn_def obind_eq_Value)
  have "symmetric a1"
    by (rule calculateQ_ul_symmetric [OF _ ul]) (intro calculateQ_fill_symmetric symmetric_setup_zero)
  then have "symmetric a2"
    by (rule calculateQ_lr_symmetric [OF _ lr])
  then show ?thesis
    by (simp add: b')
qed

lemma addP_n_symmetric:
  "symmetric a \<Longrightarrow> addP_n b x m n a = Some (Value a') \<Longrightarrow> symmetric a'"
proof (induction "nat (min (M b) (m + 3) + 1 - n)" arbitrary: n a)
  case 0
  then show ?case
    by (subst (asm) addP_n_step) (auto simp: oreturn_def split: if_splits)
next
  case (Suc k)
  from Suc(2) have le: "n \<le> min (M b) (m + 3)" by arith
  from Suc(4) le obtain pm pn where
    rec: "addP_n b x m (n + 1) (add_both a m n (pm * pn)) = Some (Value a')"
    by (subst (asm) addP_n_step) (auto simp: obind_eq_Value)
  show ?case
    using Suc(2) by (intro Suc(1) [OF _ _ rec] symmetric_add_both' Suc(3)) simp
qed

lemma addP_m_symmetric:
  "symmetric a \<Longrightarrow> addP_m b x m a = Some (Value a') \<Longrightarrow> symmetric a'"
proof (induction "nat (M b + 1 - m)" arbitrary: m a)
  case 0
  then show ?case
    by (subst (asm) addP_m_step) (simp add: oreturn_def)
next
  case (Suc k)
  from Suc(2) have le: "m \<le> M b" by simp
  from Suc(4) le obtain pm a1 where
    inner: "addP_n b x m (m + 1) (mset a m m (mget a m m + pm * pm)) = Some (Value a1)"
    and rec: "addP_m b x (m + 1) a1 = Some (Value a')"
    by (subst (asm) addP_m_step) (auto simp: obind_eq_Value)
  have "symmetric a1"
    by (rule addP_n_symmetric [OF _ inner]) (intro symmetric_mset_diag Suc(3))
  then show ?case
    using Suc(2) by (intro Suc(1) [OF _ _ rec]) simp_all
qed

lemma addP_i_symmetric:
  "symmetric a \<Longrightarrow> addP_i b i a = Some (Value a') \<Longrightarrow> symmetric a'"
proof (induction "nat (NX b - i)" arbitrary: i a)
  case 0
  then show ?case
    by (subst (asm) addP_i.simps) (simp add: oreturn_def)
next
  case (Suc k)
  from Suc(2) have lt: "i < NX b" by simp
  from Suc(4) lt obtain x m a1 where
    inner: "addP_m b x m a = Some (Value a1)"
    and rec: "addP_i b (i + 1) a1 = Some (Value a')"
    by (subst (asm) addP_i.simps) (auto simp: obind_eq_Value Let_def)
  have "symmetric a1"
    by (rule addP_m_symmetric [OF Suc(3) inner])
  then show ?case
    using Suc(2) by (intro Suc(1) [OF _ _ rec]) simp_all
qed

lemma addP_symmetric:
  assumes "symmetric (Q (base b))" "addP b = Some (Value b')"
  shows "symmetric (Q (base b'))"
  using assms by (auto simp: addP_def obind_eq_Value oreturn_def dest: addP_i_symmetric)


lemma Setup_prepared_fields:
  assumes "xs \<noteq> []" "Setup (prepared b wl bc xs) = Some (Value (ok, b1))"
  shows "\<not> OK b1" "NX b1 = int (length xs)" "X (base b1) = xs" "waveLength b1 = wl" "BC b1 = bc"
    "xmin b1 = Min (set xs)" "xmax b1 = Max (set xs)" "K b1 = K b"
  using assms(2)
  by (auto simp: Setup_prepared [OF assms(1)] Let_def oreturn_def split: if_splits option.splits prod.splits)

lemma setDomain_success_cases:
  assumes "setDomain F b x nx wl bc = Some (Value (True, b'))"
  obtains arr b1 where "x = Some arr" "0 < nx" "nat nx \<le> length arr" "0 \<le> wl" "0 \<le> bc" "bc \<le> 2"
    "Setup (prepared b wl bc (take (nat nx) arr)) = Some (Value (True, b1))"
    "assemble F b1 = Some (Value (True, b'))"
proof -
  have valid: "\<not> (nx \<le> 0 \<or> x = None \<or> wl < 0 \<or> bc < 0 \<or> bc > 2)"
  proof
    assume "nx \<le> 0 \<or> x = None \<or> wl < 0 \<or> bc < 0 \<or> bc > 2"
    from setDomain_guard [OF this, of F b] assms show False
      by (simp add: oreturn_def)
  qed
  from valid assms show thesis
  proof (rule setDomain_valid_cases)
    fix arr :: "real list" and ok b1
    assume x: "x = Some arr" and len: "nat nx \<le> length arr"
      and stp: "Setup (prepared b wl bc (take (nat nx) arr)) = Some (Value (ok, b1))"
      and yes: "ok \<Longrightarrow> assemble F b1 = Some (Value (True, b'))"
      and nok: "\<not> ok \<Longrightarrow> True = OK b1 \<and> b' = b1"
    have ne: "take (nat nx) arr \<noteq> []"
      using valid len take_nonempty [of nx arr] by auto
    have ok: ok
      using nok Setup_prepared_fields(1) [OF ne stp] by auto
    show thesis
      using that [of arr b1] x len valid stp yes [OF ok] ok by auto
  qed
qed

section \<open>Facts about a grid of spacing 0\<close>

lemma Alpha_zero: "Alpha b 0 = 0"
  by (simp add: Alpha_def)

lemma Basis_y_zero_DX: "DX b = 0 \<Longrightarrow> Basis_y b m x = 0"
  by (simp add: Basis_y_def)

lemma Basis_zero_DX:
  assumes "DX b = 0" "1 \<le> M b" "Basis b m x = Some (Value v)"
  shows "v = 0"
  using assms(3)
  by (subst (asm) Basis.simps)
     (auto simp: Let_def Basis_y_zero_DX [OF assms(1)] Basis_ghost_left [OF assms(2)]
        Basis_ghost_right [OF assms(2)] obind_eq_Value oreturn_def split: if_splits)

lemma zero_matrix_setup_zero: "zero_matrix (setup_zero n)"
  by (simp add: zero_matrix_def mget_def setup_zero_def)

lemma zero_matrix_add_zero: "zero_matrix a \<Longrightarrow> zero_matrix (mset a i j (mget a i j + 0))"
  using zero_matrix_mset [of a i j] by (simp add: zero_matrix_def)

lemma zero_matrix_add_both: "zero_matrix a \<Longrightarrow> zero_matrix (add_both a m n 0)"
  by (simp add: add_both_def Let_def zero_matrix_add_zero del: add_0_right add.right_neutral)

lemma addP_n_zero:
  assumes "DX b = 0" "1 \<le> M b"
  shows "zero_matrix a \<Longrightarrow> addP_n b x m n a = Some (Value a') \<Longrightarrow> zero_matrix a'"
proof (induction "nat (min (M b) (m + 3) + 1 - n)" arbitrary: n a)
  case 0
  then show ?case
    by (subst (asm) addP_n_step) (auto simp: oreturn_def split: if_splits)
next
  case (Suc k)
  from Suc(2) have le: "n \<le> min (M b) (m + 3)" by arith
  from Suc(4) le obtain pm pn where pm: "Basis b m x = Some (Value pm)"
    and rec: "addP_n b x m (n + 1) (add_both a m n (pm * pn)) = Some (Value a')"
    by (subst (asm) addP_n_step) (auto simp: obind_eq_Value)
  have "pm = 0"
    by (rule Basis_zero_DX [OF assms pm])
  with rec have rec0: "addP_n b x m (n + 1) (add_both a m n 0) = Some (Value a')"
    by simp
  show ?case
    using Suc(2) by (intro Suc(1) [OF _ _ rec0] zero_matrix_add_both Suc(3)) simp
qed

lemma addP_m_zero:
  assumes "DX b = 0" "1 \<le> M b"
  shows "zero_matrix a \<Longrightarrow> addP_m b x m a = Some (Value a') \<Longrightarrow> zero_matrix a'"
proof (induction "nat (M b + 1 - m)" arbitrary: m a)
  case 0
  then show ?case
    by (subst (asm) addP_m_step) (simp add: oreturn_def)
next
  case (Suc k)
  from Suc(2) have le: "m \<le> M b" by simp
  from Suc(4) le obtain pm a1 where pm: "Basis b m x = Some (Value pm)"
    and inner: "addP_n b x m (m + 1) (mset a m m (mget a m m + pm * pm)) = Some (Value a1)"
    and rec: "addP_m b x (m + 1) a1 = Some (Value a')"
    by (subst (asm) addP_m_step) (auto simp: obind_eq_Value)
  have "pm = 0"
    by (rule Basis_zero_DX [OF assms pm])
  with inner have inner0: "addP_n b x m (m + 1) (mset a m m (mget a m m + 0)) = Some (Value a1)"
    by simp
  have "zero_matrix a1"
    by (rule addP_n_zero [OF assms _ inner0]) (intro zero_matrix_add_zero Suc(3))
  then show ?case
    using Suc(2) by (intro Suc(1) [OF _ _ rec]) simp_all
qed

lemma addP_i_zero:
  assumes "DX b = 0" "1 \<le> M b"
  shows "zero_matrix a \<Longrightarrow> addP_i b i a = Some (Value a') \<Longrightarrow> zero_matrix a'"
proof (induction "nat (NX b - i)" arbitrary: i a)
  case 0
  then show ?case
    by (subst (asm) addP_i.simps) (simp add: oreturn_def)
next
  case (Suc k)
  from Suc(2) have lt: "i < NX b" by simp
  from Suc(4) lt obtain x m a1 where
    inner: "addP_m b x m a = Some (Value a1)"
    and rec: "addP_i b (i + 1) a1 = Some (Value a')"
    by (subst (asm) addP_i.simps) (auto simp: obind_eq_Value Let_def)
  have "zero_matrix a1"
    by (rule addP_m_zero [OF assms Suc(3) inner])
  then show ?case
    using Suc(2) by (intro Suc(1) [OF _ _ rec]) simp_all
qed

lemma addP_zero:
  assumes "DX b = 0" "1 \<le> M b" "zero_matrix (Q (base b))" "addP b = Some (Value b')"
  shows "zero_matrix (Q (base b'))"
  using assms(3,4) by (auto simp: addP_def obind_eq_Value oreturn_def dest: addP_i_zero [OF assms(1,2)])

lemma assemble_flat_fails:
  assumes "rejects_zero F" "DX b = 0" "1 \<le> M b" "waveLength b = 0" "\<not> OK b"
  shows "assemble F b \<noteq> Some (Value (True, b'))"
proof
  assume "assemble F b = Some (Value (True, b'))"
  then obtain b2 b3 where
    q: "calculateQ (b\<lparr>alpha := Alpha b (waveLength b)\<rparr>) = Some (Value b2)"
    and p: "addP b2 = Some (Value b3)" and f: "finish F b3 = Some (Value (True, b'))"
    by (rule assemble_cases)
  from q assms(4) have b2: "b2 = set_Q (b\<lparr>alpha := 0\<rparr>) (setup_zero (M b + 1))"
    by (simp add: calculateQ_def Let_def Alpha_zero oreturn_def)
  have "zero_matrix (Q (base b3))"
    by (rule addP_zero [OF _ _ _ p]) (simp_all add: b2 set_Q_def assms zero_matrix_setup_zero)
  moreover from addP_frame [OF p] have "\<not> OK b3"
    by (auto simp: b2 set_Q_def assms)
  ultimately show False
    using finish_frame(2) [OF f] assms(1) by (auto simp: rejects_zero_def)
qed

lemma rejects_zero_factor_diag: "rejects_zero factor_diag"
  by (simp add: rejects_zero_def factor_diag_def zero_matrix_def)

section \<open>Properties of the roughness integrals\<close>

text \<open>
  C8. For every state of the object and all node indices \<open>m1\<close>, \<open>m2\<close>:
  \<open>qDelta (m1, m2) = qDelta (m2, m1)\<close>, and \<open>qDelta (m1, m2) = 0\<close> whenever
  \<open>|m1 - m2| > 3\<close>.
\<close>

theorem qDelta_symmetric_banded:
  "qDelta b m1 m2 = qDelta b m2 m1 \<and> (\<bar>m1 - m2\<bar> > 3 \<longrightarrow> qDelta b m1 m2 = 0)"
  by (simp add: qDelta_def)

theorem qDelta_symmetric_banded_witness:
  "\<bar>0 - 5\<bar> > (3::int) \<and> qDelta unit_grid 0 5 = qDelta unit_grid 5 0 \<and> qDelta unit_grid 0 5 = 0"
  using qDelta_symmetric_banded [of unit_grid 0 5] by simp

section \<open>Termination of the basis function\<close>

text \<open>
  C10. Whenever \<open>M \<ge> 1\<close>, \<open>Basis (m, x)\<close> returns for every node index \<open>m\<close> and every
  \<open>x\<close> (a value, or the failure of an assertion of \<open>Beta\<close>), and the two calls it can make,
  \<open>Basis (-1, x)\<close> and \<open>Basis (M+1, x)\<close>, return the first half of the function body without
  a further call: the recursion is at most one deep.
\<close>

theorem Basis_terminates:
  assumes "1 \<le> M b"
  shows "(\<exists>r. Basis b m x = Some r)
       \<and> Basis b (-1) x = oreturn (Basis_y b (-1) x)
       \<and> Basis b (M b + 1) x = oreturn (Basis_y b (M b + 1) x)"
proof -
  obtain r where r: "Beta b m = Some r"
    using Beta_returns by blast
  have "\<exists>r. Basis b m x = Some r"
    by (subst Basis.simps, cases r)
       (simp_all add: Let_def r Basis_ghost_left [OF assms] Basis_ghost_right [OF assms] oreturn_def)
  then show ?thesis
    using Basis_ghost_left [OF assms] Basis_ghost_right [OF assms] by simp
qed


theorem Basis_terminates_witness:
  "1 \<le> M unit_grid
   \<and> (\<exists>r. Basis unit_grid 0 0 = Some r)
   \<and> Basis unit_grid (-1) 0 = oreturn (Basis_y unit_grid (-1) 0)
   \<and> Basis unit_grid (M unit_grid + 1) 0 = oreturn (Basis_y unit_grid (M unit_grid + 1) 0)"
  using Basis_terminates [of unit_grid 0 0] by (simp add: unit_grid_fields)

section \<open>The readiness flag\<close>

text \<open>
  C7, as amended. A call of \<open>setDomain\<close> whose arguments fail the validation
  (\<open>nx \<le> 0\<close>, a null \<open>x\<close>, \<open>wl < 0\<close>, \<open>bc\<close> outside 0..2) returns false and leaves the
  object as it was, so \<open>OK\<close> keeps the value it had. After a failing call whose arguments
  pass the validation, \<open>OK\<close> is false.
\<close>

theorem setDomain_OK_after_failure:
  "(nx \<le> 0 \<or> x = None \<or> wl < 0 \<or> bc < 0 \<or> bc > 2
      \<longrightarrow> setDomain F b x nx wl bc = oreturn (False, b))
   \<and> (\<not> (nx \<le> 0 \<or> x = None \<or> wl < 0 \<or> bc < 0 \<or> bc > 2)
        \<and> setDomain F b x nx wl bc = oreturn (False, b')
      \<longrightarrow> \<not> OK b')"
proof (intro conjI impI)
  assume "nx \<le> 0 \<or> x = None \<or> wl < 0 \<or> bc < 0 \<or> bc > 2"
  then show "setDomain F b x nx wl bc = oreturn (False, b)"
    by (rule setDomain_guard)
next
  assume "\<not> (nx \<le> 0 \<or> x = None \<or> wl < 0 \<or> bc < 0 \<or> bc > 2)
        \<and> setDomain F b x nx wl bc = oreturn (False, b')"
  then show "\<not> OK b'"
    using setDomain_returns_OK [of nx x wl bc F b False b'] by (simp add: oreturn_def)
qed

theorem setDomain_OK_after_failure_witness:
  "setDomain factor_diag unit_grid None 0 0 0 = oreturn (False, unit_grid)
   \<and> \<not> (5 \<le> (0::int) \<or> Some [0, 1, 2, 3, 4 :: real] = None \<or> (10::real) < 0 \<or> (0::int) < 0 \<or> (0::int) > 2)
   \<and> setDomain factor_diag fresh (Some [0, 1, 2, 3, 4]) 5 10 0 = oreturn (False, sparse_base)
   \<and> \<not> OK sparse_base"
  using setDomain_OK_after_failure [of 0 None 0 0 factor_diag unit_grid unit_grid]
    setDomain_OK_after_failure [of 5 "Some [0, 1, 2, 3, 4]" 10 0 factor_diag fresh sparse_base]
    sparse_base_setDomain(1)
  by simp

text \<open>
  The claim as it was stated fails on an object that was ready: the call with a null pointer
  returns false and the object is still OK.
\<close>

theorem setDomain_OK_stale_counterexample:
  "setDomain factor_diag unit_grid None 0 0 0 = oreturn (False, unit_grid) \<and> OK unit_grid"
  by (simp add: setDomain_guard unit_grid_fields)

section \<open>Queries on an object that is not ready\<close>

text \<open>
  C9. On a \<open>BSpline\<close> whose configuration is not OK, \<open>evaluate (x)\<close> returns 0 for every
  \<open>x\<close>, \<open>coefficient (n)\<close> returns 0 for every \<open>n\<close>, and \<open>curve ()\<close> returns the null
  pointer and leaves the object as it is; none of them stops the process.
\<close>

theorem queries_when_not_OK:
  assumes "\<not> OK (super this)"
  shows "evaluate this x = oreturn 0 \<and> coefficient this n = oreturn 0 \<and> curve this = oreturn (None, this)"
  using assms by (simp add: evaluate_def coefficient_def curve_def)

theorem queries_when_not_OK_witness:
  "\<not> OK (super sparse_spline)
   \<and> evaluate sparse_spline 2 = oreturn 0
   \<and> coefficient sparse_spline 1 = oreturn 0
   \<and> curve sparse_spline = oreturn (None, sparse_spline)"
proof -
  have h: "\<not> OK (super sparse_spline)"
    by (simp add: sparse_spline_def BSplineBase_copy_def sparse_base_setDomain)
  show ?thesis
    using h queries_when_not_OK [OF h, of 2 1] by simp
qed


section \<open>What setDomain rejects\<close>

text \<open>
  C3. \<open>setDomain\<close> returns false when \<open>nx \<le> 0\<close>, when \<open>x\<close> is the null pointer, when
  \<open>wl < 0\<close> and when \<open>bc\<close> is outside 0..2; and for \<open>nx\<close> samples with a valid \<open>bc\<close> it
  returns false, with \<open>OK\<close> false, whenever the wavelength is greater than the span
  \<open>xmax - xmin\<close> of the samples.
\<close>

theorem setDomain_rejects:
  "(nx \<le> 0 \<or> x = None \<or> wl < 0 \<or> bc < 0 \<or> bc > 2
      \<longrightarrow> setDomain F b x nx wl bc = oreturn (False, b))
   \<and> (0 < nx \<and> nat nx \<le> length arr \<and> 0 \<le> bc \<and> bc \<le> 2
        \<and> wl > Max (set (take (nat nx) arr)) - Min (set (take (nat nx) arr))
      \<longrightarrow> (\<exists>b'. setDomain F b (Some arr) nx wl bc = oreturn (False, b') \<and> \<not> OK b'))"
proof (intro conjI impI)
  assume "nx \<le> 0 \<or> x = None \<or> wl < 0 \<or> bc < 0 \<or> bc > 2"
  then show "setDomain F b x nx wl bc = oreturn (False, b)"
    by (rule setDomain_guard)
next
  let ?xs = "take (nat nx) arr"
  assume a: "0 < nx \<and> nat nx \<le> length arr \<and> 0 \<le> bc \<and> bc \<le> 2 \<and> wl > Max (set ?xs) - Min (set ?xs)"
  then have ne: "?xs \<noteq> []"
    using take_nonempty [of nx arr] by blast
  from Min_le_Max_list [OF ne] a have wl: "0 \<le> wl" by simp
  have "setDomain F b (Some arr) nx wl bc = oreturn (False, scanned (prepared b wl bc ?xs))"
    using a wl by (simp add: setDomain_valid Setup_prepared [OF ne] Let_def)
  then show "\<exists>b'. setDomain F b (Some arr) nx wl bc = oreturn (False, b') \<and> \<not> OK b'"
    by simp
qed

theorem setDomain_rejects_witness:
  "setDomain factor_diag unit_grid None 2 0 0 = oreturn (False, unit_grid)
   \<and> setDomain factor_diag unit_grid (Some [0, 1]) 0 0 0 = oreturn (False, unit_grid)
   \<and> setDomain factor_diag unit_grid (Some [0, 1]) 2 (-1) 0 = oreturn (False, unit_grid)
   \<and> setDomain factor_diag unit_grid (Some [0, 1]) 2 0 3 = oreturn (False, unit_grid)
   \<and> (0::int) < 5 \<and> nat 5 \<le> length [0, 1, 2, 3, 4 :: real]
   \<and> (10::real) > Max (set (take (nat 5) [0, 1, 2, 3, 4])) - Min (set (take (nat 5) [0, 1, 2, 3, 4]))
   \<and> (\<exists>b'. setDomain factor_diag fresh (Some [0, 1, 2, 3, 4]) 5 10 0 = oreturn (False, b') \<and> \<not> OK b')"
  using setDomain_rejects [of 2 None 0 0 factor_diag unit_grid]
    setDomain_rejects [of 0 "Some [0, 1]" 0 0 factor_diag unit_grid]
    setDomain_rejects [of 2 "Some [0, 1]" "-1" 0 factor_diag unit_grid]
    setDomain_rejects [of 2 "Some [0, 1]" 0 3 factor_diag unit_grid]
    setDomain_rejects [of 5 "Some [0, 1, 2, 3, 4]" 10 0 factor_diag fresh "[0, 1, 2, 3, 4]"]
  by simp

section \<open>The grid without a wavelength\<close>

text \<open>
  C2. When \<open>setDomain\<close> with wavelength 0 succeeds, the object holds the \<open>nx\<close> samples,
  \<open>xmin\<close> and \<open>xmax\<close> are their minimum and maximum, \<open>M = NX = nx\<close> and
  \<open>DX = (xmax - xmin) / NX\<close>.
\<close>

theorem setDomain_no_wavelength:
  assumes "setDomain F b x nx 0 bc = oreturn (True, b')"
  shows "M b' = NX b' \<and> NX b' = nx
       \<and> xmin b' = Min (set (X (base b'))) \<and> xmax b' = Max (set (X (base b')))
       \<and> DX b' = (xmax b' - xmin b') / of_int (NX b')
       \<and> (\<exists>arr. x = Some arr \<and> X (base b') = take (nat nx) arr)"
proof -
  have valid: "\<not> (nx \<le> 0 \<or> x = None \<or> (0::real) < 0 \<or> bc < 0 \<or> bc > 2)"
  proof
    assume "nx \<le> 0 \<or> x = None \<or> (0::real) < 0 \<or> bc < 0 \<or> bc > 2"
    from setDomain_guard [OF this, of F b] assms show False by simp
  qed
  from assms have res: "setDomain F b x nx 0 bc = Some (Value (True, b'))"
    by (simp add: oreturn_def)
  from valid res show ?thesis
  proof (rule setDomain_valid_cases)
    fix arr :: "real list" and ok b1
    let ?xs = "take (nat nx) arr"
    assume x: "x = Some arr" and len: "nat nx \<le> length arr"
      and stp: "Setup (prepared b 0 bc ?xs) = Some (Value (ok, b1))"
      and yes: "ok \<Longrightarrow> assemble F b1 = Some (Value (True, b'))"
      and nok: "\<not> ok \<Longrightarrow> True = OK b1 \<and> b' = b1"
    have ne: "?xs \<noteq> []"
      using valid len take_nonempty [of nx arr] by auto
    have lenx: "int (length ?xs) = nx"
      using valid len by simp
    have mn: "min (length arr) (nat nx) = nat nx" "int (nat nx) = nx" "real (nat nx) = of_int nx"
      using valid len by simp_all
    have pos: "0 < nx" using valid by simp
    from stp Min_le_Max_list [OF ne] pos
    have ok: "ok" and b1: "b1 = (scanned (prepared b 0 bc ?xs))\<lparr>DX := (Max (set ?xs) - Min (set ?xs)) / of_int nx, M := nx\<rparr>"
      by (auto simp: Setup_prepared [OF ne] Let_def oreturn_def mn)
    note fr = assemble_frame [OF yes [OF ok]]
    show ?thesis
      using x lenx by (simp add: fr b1)
  qed
qed

theorem setDomain_no_wavelength_witness:
  "setDomain factor_diag fresh (Some [0, 1]) 2 0 1 = oreturn (True, unit_grid)
   \<and> M unit_grid = 2 \<and> NX unit_grid = 2 \<and> xmin unit_grid = 0 \<and> xmax unit_grid = 1
   \<and> DX unit_grid = 1 / 2"
  using setDomain_no_wavelength [OF unit_grid_setDomain] unit_grid_setDomain
  by (simp add: unit_grid_fields)


section \<open>The grid search on ten and on eleven samples\<close>

text \<open>
  C5, as amended. For the samples \<open>0, 1, ..., 9\<close> with wavelength 3 and type 0,
  \<open>setDomain\<close> returns false and \<open>OK\<close> is false: the grid search starts at \<open>ni = 10\<close> and
  its density check \<open>NX / (ni + 1) \<ge> 1\<close> fails, \<open>10 / 11 < 1\<close>. With the eleven samples
  \<open>0, 1, ..., 10\<close> the grid search of \<open>Setup\<close> succeeds and chooses \<open>M = 10\<close> and \<open>DX = 1\<close>.
\<close>

theorem setDomain_ten_samples:
  "(\<exists>b'. setDomain F b (Some [0, 1, 2, 3, 4, 5, 6, 7, 8, 9]) 10 3 0 = oreturn (False, b') \<and> \<not> OK b')
   \<and> (\<exists>b1. Setup (prepared b 3 0 [0, 1, 2, 3, 4, 5, 6, 7, 8, 9, 10]) = oreturn (True, b1)
          \<and> M b1 = 10 \<and> DX b1 = 1)"
proof
  show "\<exists>b'. setDomain F b (Some [0, 1, 2, 3, 4, 5, 6, 7, 8, 9]) 10 3 0 = oreturn (False, b') \<and> \<not> OK b'"
    by (simp add: setDomain_ten_fails)
next
  let ?xs = "[0, 1, 2, 3, 4, 5, 6, 7, 8, 9, 10 :: real]"
  let ?b1 = "scanned (prepared b 3 0 ?xs)"
  have coarse: "Setup_coarse ?b1 9 = Some (10, 1, 1 / 3)"
    by (subst Setup_coarse.simps) (simp add: Let_def Ratio_def fmin_def)
  have fine: "Setup_fine ?b1 10 = (10, 1)"
    by (subst Setup_fine.simps) (simp add: Let_def Ratio_def)
  have "Setup (prepared b 3 0 ?xs) = oreturn (True, ?b1\<lparr>DX := 1, M := 10\<rparr>)"
    by (simp add: Setup_prepared Let_def coarse fine)
  then show "\<exists>b1. Setup (prepared b 3 0 ?xs) = oreturn (True, b1) \<and> M b1 = 10 \<and> DX b1 = 1"
    by simp
qed

text \<open>The claim as it was stated (the call on the ten samples succeeds) fails: it returns false.\<close>

theorem setDomain_ten_samples_counterexample:
  "map_option fst (returned (setDomain factor_diag fresh (Some [0, 1, 2, 3, 4, 5, 6, 7, 8, 9]) 10 3 0))
     = Some False"
  by (simp add: setDomain_ten_fails returned_def oreturn_def)

section \<open>Symmetry of the system matrix\<close>

text \<open>
  C1. In every call of \<open>setDomain\<close> that succeeds, \<open>calculateQ\<close> has returned an object
  whose matrix \<open>Q\<close> is symmetric (\<open>Q[i][j] = Q[j][i]\<close> for all \<open>i\<close>, \<open>j\<close>), \<open>addP\<close> has
  returned from it an object whose matrix is symmetric, and that matrix is the one the
  configured object holds.
\<close>

theorem system_matrix_symmetric:
  assumes "setDomain F b x nx wl bc = oreturn (True, b')"
  shows "\<exists>b1 b2 b3. calculateQ b1 = oreturn b2 \<and> symmetric (Q (base b2))
           \<and> addP b2 = oreturn b3 \<and> symmetric (Q (base b3))
           \<and> Q (base b') = Q (base b3)"
proof -
  from assms have "setDomain F b x nx wl bc = Some (Value (True, b'))"
    by (simp add: oreturn_def)
  then obtain s1 where asm: "assemble F s1 = Some (Value (True, b'))"
    by (rule setDomain_success_cases)
  then obtain b2 b3 where
    q: "calculateQ (s1\<lparr>alpha := Alpha s1 (waveLength s1)\<rparr>) = Some (Value b2)"
    and p: "addP b2 = Some (Value b3)" and f: "finish F b3 = Some (Value (True, b'))"
    by (rule assemble_cases)
  have s2: "symmetric (Q (base b2))"
    by (rule calculateQ_symmetric [OF q])
  have s3: "symmetric (Q (base b3))"
    by (rule addP_symmetric [OF s2 p])
  have "Q (base b') = Q (base b3)"
    by (subst finish_frame(3) [OF f]) simp
  with q p s2 s3 show ?thesis
    by (auto simp: oreturn_def)
qed

theorem system_matrix_symmetric_witness:
  "setDomain factor_diag fresh (Some [0, 1]) 2 0 1 = oreturn (True, unit_grid)
   \<and> symmetric (Q (base unit_grid))"
  using system_matrix_symmetric [OF unit_grid_setDomain] unit_grid_setDomain by auto


section \<open>The invariant of the node grid\<close>

text \<open>
  C6. Let the factoring routine report a failure on the matrix whose cells are all 0. Then
  after every call of \<open>setDomain\<close> that succeeds, \<open>M \<ge> 1\<close> and \<open>DX > 0\<close>. Samples that
  are all equal are never accepted: they give \<open>DX = 0\<close>, every value of the basis function
  is then 0, the matrix stays 0 and the factorization fails; so \<open>xmin < xmax\<close> as well.
\<close>

theorem grid_invariant:
  assumes "rejects_zero F" "setDomain F b x nx wl bc = oreturn (True, b')"
  shows "1 \<le> M b' \<and> 0 < DX b' \<and> xmin b' < xmax b'"
proof -
  from assms(2) have "setDomain F b x nx wl bc = Some (Value (True, b'))"
    by (simp add: oreturn_def)
  then show ?thesis
  proof (rule setDomain_success_cases)
    fix arr :: "real list" and b1
    let ?xs = "take (nat nx) arr"
    let ?s = "scanned (prepared b wl bc ?xs)"
    let ?span = "Max (set ?xs) - Min (set ?xs)"
    assume pos: "0 < nx" and len: "nat nx \<le> length arr" and wl: "0 \<le> wl"
      and stp: "Setup (prepared b wl bc ?xs) = Some (Value (True, b1))"
      and asm: "assemble F b1 = Some (Value (True, b'))"
    have ne: "?xs \<noteq> []"
      using pos len take_nonempty [of nx arr] by auto
    have lenx: "int (length ?xs) = nx"
      using pos len by simp
    note f1 = Setup_prepared_fields [OF ne stp]
    note fr = assemble_frame [OF asm]
    have span: "0 \<le> ?span"
      using Min_le_Max_list [OF ne] by simp
    have grid: "1 \<le> M b1 \<and> 0 < DX b1 \<and> 0 < ?span"
    proof (cases "wl = 0")
      case True
      have mn: "min (length arr) (nat nx) = nat nx" "int (nat nx) = nx" "real (nat nx) = of_int nx"
        using pos len by simp_all
      from stp span True pos have b1: "b1 = ?s\<lparr>DX := ?span / of_int nx, M := nx\<rparr>"
        by (auto simp: Setup_prepared [OF ne] Let_def oreturn_def mn)
      have "?span \<noteq> 0"
      proof
        assume "?span = 0"
        then have flat: "DX b1 = 0" "1 \<le> M b1"
          using pos by (simp_all add: b1)
        have "waveLength b1 = 0"
          using f1(4) True by simp
        from assemble_flat_fails [OF assms(1) flat this f1(1), of b'] asm show False
          by simp
      qed
      with span pos show ?thesis
        by (simp add: b1)
    next
      case False
      with wl have wlpos: "0 < wl" by simp
      from stp False obtain n1 dx rf where le: "wl \<le> ?span"
        and coarse: "Setup_coarse ?s 9 = Some (n1, dx, rf)"
        and b1: "b1 = ?s\<lparr>DX := snd (Setup_fine ?s n1), M := fst (Setup_fine ?s n1)\<rparr>"
        by (auto simp: Setup_prepared [OF ne] Let_def oreturn_def case_prod_unfold
              split: if_splits option.splits)
      from Setup_coarse_gt [OF coarse] have "9 < n1" .
      moreover from Setup_fine_result [of ?s n1 "fst (Setup_fine ?s n1)" "snd (Setup_fine ?s n1)"]
      have "n1 \<le> fst (Setup_fine ?s n1)"
        and "snd (Setup_fine ?s n1) = ?span / of_int (fst (Setup_fine ?s n1))"
        by simp_all
      ultimately show ?thesis
        using le wlpos by (simp add: b1)
    qed
    then show ?thesis
      using f1 by (simp add: fr)
  qed
qed

theorem grid_invariant_witness:
  "rejects_zero factor_diag
   \<and> setDomain factor_diag fresh (Some [0, 1]) 2 0 1 = oreturn (True, unit_grid)
   \<and> 1 \<le> M unit_grid \<and> 0 < DX unit_grid \<and> xmin unit_grid < xmax unit_grid"
  using grid_invariant [OF rejects_zero_factor_diag unit_grid_setDomain]
    rejects_zero_factor_diag unit_grid_setDomain
  by simp


end
